theory Spec2Isabelle
  imports Complex_Main "HOL-Library.AList" "HOL-Library.Char_ord" "HOL-Library.List_Lexorder"
    "HOL-Library.Product_Lexorder" "HOL-Library.Multiset"
begin

section \<open>JavaScript values\<close>

text \<open>
  A JavaScript number is a double. Only its identity, its comparison with \<open>0\<close> and \<open>1\<close> and
  its type tag are used by the code below, so a finite number is modelled by the rational it
  denotes (\<open>-0\<close> and \<open>0\<close> are one value, as they are for \<open>===\<close>).
\<close>

datatype jsnum = Fin rat | NaN | PosInf | NegInf

datatype jsval =
    JUndefined
  | JNull
  | JBool bool
  | JNum jsnum
  | JStr string
  | JArray "jsval list"
  | JObject "(string \<times> jsval) list"

datatype exn = TypeError string

fun typeof :: "jsval \<Rightarrow> string" where
  "typeof JUndefined = ''undefined''"
| "typeof JNull = ''object''"
| "typeof (JBool b) = ''boolean''"
| "typeof (JNum n) = ''number''"
| "typeof (JStr s) = ''string''"
| "typeof (JArray xs) = ''object''"
| "typeof (JObject fs) = ''object''"

text \<open>A value in the position of a condition: \<open>if (v)\<close>, \<open>v || ...\<close>.\<close>

fun truthy :: "jsval \<Rightarrow> bool" where
  "truthy JUndefined = False"
| "truthy JNull = False"
| "truthy (JBool b) = b"
| "truthy (JNum n) = (n \<noteq> NaN \<and> n \<noteq> Fin 0)"
| "truthy (JStr s) = (s \<noteq> [])"
| "truthy (JArray xs) = True"
| "truthy (JObject fs) = True"

text \<open>
  \<open>Number(v)\<close>. The conversion of a string (and of an array or object, which goes through
  its primitive value) is implementation-defined in its rounding and is no code of this
  repository: it is the parameter \<open>conv\<close>. The other cases are fixed by the language.
\<close>

fun Number :: "(jsval \<Rightarrow> jsnum) \<Rightarrow> jsval \<Rightarrow> jsnum" where
  "Number conv JUndefined = NaN"
| "Number conv JNull = Fin 0"
| "Number conv (JBool b) = (if b then Fin 1 else Fin 0)"
| "Number conv (JNum n) = n"
| "Number conv (JStr s) = conv (JStr s)"
| "Number conv (JArray xs) = conv (JArray xs)"
| "Number conv (JObject fs) = conv (JObject fs)"

text \<open>\<open>xs[i]\<close>: reading an array past its end gives \<open>undefined\<close>.\<close>

definition index :: "jsval list \<Rightarrow> nat \<Rightarrow> jsval" where
  "index xs i = (if i < length xs then xs ! i else JUndefined)"

text \<open>\<open>enums.join(', ')\<close>\<close>

fun join :: "string \<Rightarrow> string list \<Rightarrow> string" where
  "join sep [] = []"
| "join sep [x] = x"
| "join sep (x # y # ys) = x @ sep @ join sep (y # ys)"

text \<open>\<open>enums.indexOf(v) < 0\<close>: \<open>indexOf\<close> compares with \<open>===\<close>, so only a string can be found.\<close>

definition notInEnum :: "string list \<Rightarrow> jsval \<Rightarrow> bool" where
  "notInEnum enums v = (case v of JStr s \<Rightarrow> s \<notin> set enums | _ \<Rightarrow> True)"

section \<open>The XML builder\<close>

text \<open>
  The XML library is external. A document under construction is the sequence of builder
  calls made on it: \<open>ele(name)\<close>, \<open>att(name, value)\<close>, \<open>text(value)\<close>, \<open>up()\<close>.
\<close>

datatype xop = Ele string | Att string jsval | Text jsval | Up

text \<open>
  The module \<open>utils\<close> is imported by both source files and is not among them: its functions
  are parameters.
\<close>

record utils =
  boolToInt :: "jsval \<Rightarrow> jsval"
  getExcelAlpha :: "int \<Rightarrow> string"
  sortCellRefs :: "string list \<Rightarrow> string list"
  getHashOfPassword :: "jsval \<Rightarrow> jsval"

section \<open>dataValidation.ts\<close>

definition dquote :: string where
  "dquote = [CHR 0x22]"

text \<open>
  \<open>cleanFormula\<close>. \<open>f.substr\<close> exists on strings only; on any other value that is not a
  number the call raises a TypeError.
\<close>

fun cleanFormula :: "jsval \<Rightarrow> exn + jsval" where
  "cleanFormula (JNum n) = Inr (JNum n)"
| "cleanFormula (JStr f) =
     (if take 1 f = ''='' then Inr (JStr f) else Inr (JStr (dquote @ f @ dquote)))"
| "cleanFormula v = Inl (TypeError ''f.substr is not a function'')"

record DataValidation =
  sqref :: jsval
  formula1 :: jsval
  formula2 :: jsval
  allowBlank :: jsval
  errorStyle :: jsval
  error :: jsval
  showErrorMessage :: jsval
  errorTitle :: jsval
  imeMode :: jsval
  operator :: jsval
  prompt :: jsval
  showInputMessage :: jsval
  promptTitle :: jsval
  showDropDown :: jsval
  type :: jsval

text \<open>A new instance: every declared field is \<open>undefined\<close>.\<close>

definition newDataValidation :: DataValidation where
  "newDataValidation =
     \<lparr>sqref = JUndefined, formula1 = JUndefined, formula2 = JUndefined,
      allowBlank = JUndefined, errorStyle = JUndefined, error = JUndefined,
      showErrorMessage = JUndefined, errorTitle = JUndefined, imeMode = JUndefined,
      operator = JUndefined, prompt = JUndefined, showInputMessage = JUndefined,
      promptTitle = JUndefined, showDropDown = JUndefined, type = JUndefined\<rparr>"

text \<open>\<open>cond ? valEle.att(name, value) : null\<close>\<close>

definition attIf :: "bool \<Rightarrow> string \<Rightarrow> jsval \<Rightarrow> xop list" where
  "attIf c name v = (if c then [Att name v] else [])"

text \<open>
  \<open>DataValidation.addToXMLele\<close>: the builder calls made, and the exception that ended them
  if one did (\<open>cleanFormula\<close> can raise after the attributes have been written).
\<close>

definition addToXMLele :: "'a utils_scheme \<Rightarrow> DataValidation \<Rightarrow> xop list \<times> exn option" where
  "addToXMLele u this =
    (let atts =
       [Ele ''dataValidation'']
       @ attIf (type this \<noteq> JUndefined) ''type'' (type this)
       @ attIf (errorStyle this \<noteq> JUndefined) ''errorStyle'' (errorStyle this)
       @ attIf (imeMode this \<noteq> JUndefined) ''imeMode'' (imeMode this)
       @ attIf (operator this \<noteq> JUndefined) ''operator'' (operator this)
       @ attIf (allowBlank this \<noteq> JUndefined) ''allowBlank'' (boolToInt u (allowBlank this))
       @ attIf (showDropDown this = JBool False) ''showDropDown'' (JNum (Fin 1))
       @ attIf (showInputMessage this \<noteq> JUndefined) ''showInputMessage''
           (boolToInt u (showInputMessage this))
       @ attIf (showErrorMessage this \<noteq> JUndefined) ''showErrorMessage''
           (boolToInt u (showErrorMessage this))
       @ attIf (errorTitle this \<noteq> JUndefined) ''errorTitle'' (errorTitle this)
       @ attIf (error this \<noteq> JUndefined) ''error'' (error this)
       @ attIf (promptTitle this \<noteq> JUndefined) ''promptTitle'' (promptTitle this)
       @ attIf (prompt this \<noteq> JUndefined) ''prompt'' (prompt this)
       @ attIf (sqref this \<noteq> JUndefined) ''sqref'' (sqref this)
     in if formula1 this \<noteq> JUndefined then
          (case cleanFormula (formula1 this) of
             Inl e \<Rightarrow> (atts @ [Ele ''formula1''], Some e)
           | Inr t1 \<Rightarrow>
               if formula2 this \<noteq> JUndefined then
                 (case cleanFormula (formula2 this) of
                    Inl e \<Rightarrow> (atts @ [Ele ''formula1'', Text t1, Up, Ele ''formula2''], Some e)
                  | Inr t2 \<Rightarrow>
                      (atts @ [Ele ''formula1'', Text t1, Up, Ele ''formula2'', Text t2, Up],
                       None))
               else (atts @ [Ele ''formula1'', Text t1, Up], None))
        else (atts @ [Up], None))"

text \<open>
  \<open>DataValidationCollection.addToXMLele\<close> (lines 312-318), on the \<open>items\<close> of the collection:
  each rule writes itself and \<open>valsEle.up()\<close> follows it; a rule that raises ends the loop.
\<close>

fun addItems :: "'a utils_scheme \<Rightarrow> DataValidation list \<Rightarrow> xop list \<times> exn option" where
  "addItems u [] = ([], None)"
| "addItems u (val # rest) =
     (case addToXMLele u val of
        (calls, Some e) \<Rightarrow> (calls, Some e)
      | (calls, None) \<Rightarrow>
          (case addItems u rest of (others, r) \<Rightarrow> (calls @ [Up] @ others, r)))"

definition DataValidationCollection_addToXMLele ::
  "'a utils_scheme \<Rightarrow> DataValidation list \<Rightarrow> xop list \<times> exn option" where
  "DataValidationCollection_addToXMLele u items =
     (case addItems u items of
        (calls, r) \<Rightarrow>
          ([Ele ''dataValidations'', Att ''count'' (JNum (Fin (of_nat (length items))))] @ calls,
           r))"

text \<open>
  The constructor. \<open>opts\<close> is the caller's option bag: reading a property that is not there
  gives \<open>undefined\<close>, so it is a total map from property names. The constructor assigns to
  \<open>opts\<close> as well as to \<open>this\<close>, so both are threaded through its blocks; a \<open>throw\<close> ends the
  construction with the exception.
\<close>

type_synonym DataValidationConstructorOpts = "string \<Rightarrow> jsval"

type_synonym ctor_state = "DataValidationConstructorOpts \<times> DataValidation"

definition bind :: "exn + 'a \<Rightarrow> ('a \<Rightarrow> exn + 'b) \<Rightarrow> exn + 'b" where
  "bind m f = (case m of Inl e \<Rightarrow> Inl e | Inr x \<Rightarrow> f x)"

text \<open>Lines 79-86: what \<open>opts.formulas\<close> assigns to \<open>this\<close> when it is an array.\<close>

definition assignFormulas :: "jsval \<Rightarrow> DataValidation \<Rightarrow> DataValidation" where
  "assignFormulas formulas this =
     (case formulas of
        JArray fs \<Rightarrow>
          (let this1 = (if index fs 0 \<noteq> JUndefined then this\<lparr>formula1 := index fs 0\<rparr> else this);
               this2 = (if index fs 1 \<noteq> JUndefined then this1\<lparr>formula2 := index fs 1\<rparr> else this1)
           in this2)
      | _ \<Rightarrow> this)"

definition formulasBlock :: "ctor_state \<Rightarrow> exn + ctor_state" where
  "formulasBlock = (\<lambda>(opts, this). Inr (opts, assignFormulas (opts ''formulas'') this))"

text \<open>
  The block written four times, for \<open>allowBlank\<close>, \<open>showDropDown\<close>, \<open>showErrorMessage\<close> and
  \<open>showInputMessage\<close> (lines 88-101, 186-229): \<open>k\<close> is the property, \<open>assign\<close> the assignment
  to the field of \<open>this\<close>.
\<close>

definition boolBlock ::
  "(jsval \<Rightarrow> jsnum) \<Rightarrow> string \<Rightarrow> (jsval \<Rightarrow> DataValidation \<Rightarrow> DataValidation) \<Rightarrow>
   ctor_state \<Rightarrow> exn + ctor_state" where
  "boolBlock conv k assign = (\<lambda>(opts, this).
     if opts k \<noteq> JUndefined then
       (let opts1 = (if Number conv (opts k) = Fin 1 then opts(k := JBool True) else opts);
            opts2 = (if Number conv (opts1 k) = Fin 0 then opts1(k := JBool False) else opts1)
        in if typeof (opts2 k) \<noteq> ''boolean'' then
             Inl (TypeError (''DataValidation '' @ k @ '' must be true, false, 1 or 0''))
           else Inr (opts2, assign (opts2 k) this))
     else Inr (opts, this))"

text \<open>The block of \<open>errorStyle\<close>, \<open>imeMode\<close>, \<open>operator\<close> and \<open>type\<close>.\<close>

definition enumBlock ::
  "string \<Rightarrow> string list \<Rightarrow> (jsval \<Rightarrow> DataValidation \<Rightarrow> DataValidation) \<Rightarrow>
   ctor_state \<Rightarrow> exn + ctor_state" where
  "enumBlock k enums assign = (\<lambda>(opts, this).
     if opts k \<noteq> JUndefined then
       (if notInEnum enums (opts k) then
          Inl (TypeError (''DataValidation '' @ k @ '' must be one of '' @ join '', '' enums))
        else Inr (opts, assign (opts k) this))
     else Inr (opts, this))"

text \<open>
  The block of \<open>error\<close>, \<open>errorTitle\<close>, \<open>prompt\<close> and \<open>promptTitle\<close>: \<open>flag\<close> is the property
  (\<open>showErrorMessage\<close> or \<open>showInputMessage\<close>) that
  \<open>this.flag = opts.flag = true\<close> writes in both objects.
\<close>

definition textBlock ::
  "string \<Rightarrow> (jsval \<Rightarrow> DataValidation \<Rightarrow> DataValidation) \<Rightarrow>
   string \<Rightarrow> (jsval \<Rightarrow> DataValidation \<Rightarrow> DataValidation) \<Rightarrow>
   ctor_state \<Rightarrow> exn + ctor_state" where
  "textBlock k assign flag assignFlag = (\<lambda>(opts, this).
     if opts k \<noteq> JUndefined then
       (if typeof (opts k) \<noteq> ''string'' then
          Inl (TypeError (''DataValidation '' @ k @ '' must be a string''))
        else Inr (opts(flag := JBool True), assignFlag (JBool True) (assign (opts k) this)))
     else Inr (opts, this))"

definition errorStyles :: "string list" where
  "errorStyles = [''stop'', ''warning'', ''information'']"

definition imeModes :: "string list" where
  "imeModes = [''noControl'', ''off'', ''on'', ''disabled'', ''hiragana'', ''fullKatakana'',
     ''halfKatakana'', ''fullAlpha'', ''halfAlpha'', ''fullHangul'', ''halfHangul'']"

definition operators :: "string list" where
  "operators = [''between'', ''notBetween'', ''equal'', ''notEqual'', ''lessThan'',
     ''lessThanOrEqual'', ''greaterThan'', ''greaterThanOrEqual'']"

definition types :: "string list" where
  "types = [''none'', ''whole'', ''decimal'', ''list'', ''date'', ''time'', ''textLength'',
     ''custom'']"

text \<open>
  \<open>new DataValidation(opts)\<close>: the blocks of lines 79-248 in their order, run after the
  \<open>sqref\<close> check. The result is the exception thrown, or the caller's \<open>opts\<close> as the
  constructor leaves it together with the instance.
\<close>

definition blocks :: "(jsval \<Rightarrow> jsnum) \<Rightarrow> (ctor_state \<Rightarrow> exn + ctor_state) list" where
  "blocks conv =
     [formulasBlock,
      boolBlock conv ''allowBlank'' (\<lambda>v this. this\<lparr>allowBlank := v\<rparr>),
      enumBlock ''errorStyle'' errorStyles (\<lambda>v this. this\<lparr>errorStyle := v\<rparr>),
      textBlock ''error'' (\<lambda>v this. this\<lparr>error := v\<rparr>)
        ''showErrorMessage'' (\<lambda>v this. this\<lparr>showErrorMessage := v\<rparr>),
      textBlock ''errorTitle'' (\<lambda>v this. this\<lparr>errorTitle := v\<rparr>)
        ''showErrorMessage'' (\<lambda>v this. this\<lparr>showErrorMessage := v\<rparr>),
      enumBlock ''imeMode'' imeModes (\<lambda>v this. this\<lparr>imeMode := v\<rparr>),
      enumBlock ''operator'' operators (\<lambda>v this. this\<lparr>operator := v\<rparr>),
      textBlock ''prompt'' (\<lambda>v this. this\<lparr>prompt := v\<rparr>)
        ''showInputMessage'' (\<lambda>v this. this\<lparr>showInputMessage := v\<rparr>),
      textBlock ''promptTitle'' (\<lambda>v this. this\<lparr>promptTitle := v\<rparr>)
        ''showInputMessage'' (\<lambda>v this. this\<lparr>showInputMessage := v\<rparr>),
      boolBlock conv ''showDropDown'' (\<lambda>v this. this\<lparr>showDropDown := v\<rparr>),
      boolBlock conv ''showErrorMessage'' (\<lambda>v this. this\<lparr>showErrorMessage := v\<rparr>),
      boolBlock conv ''showInputMessage'' (\<lambda>v this. this\<lparr>showInputMessage := v\<rparr>),
      enumBlock ''type'' types (\<lambda>v this. this\<lparr>type := v\<rparr>)]"

definition DataValidation_constructor ::
  "(jsval \<Rightarrow> jsnum) \<Rightarrow> DataValidationConstructorOpts \<Rightarrow> exn + ctor_state" where
  "DataValidation_constructor conv opts =
     foldl bind
       (if opts ''sqref'' = JUndefined then
          Inl (TypeError ''sqref must be specified when creating a DataValidation instance.'')
        else Inr (opts, newDataValidation\<lparr>sqref := opts ''sqref''\<rparr>))
       (blocks conv)"

text \<open>
  Closed examples below put no string, array or object where \<open>Number\<close> is applied, so the
  conversion parameter is never consulted in them; they pass this one.
\<close>

definition notConsulted :: "jsval \<Rightarrow> jsnum" where
  "notConsulted v = NaN"

text \<open>An option bag written as a literal: the listed properties, every other one absent.\<close>

definition object :: "(string \<times> jsval) list \<Rightarrow> DataValidationConstructorOpts" where
  "object props = (\<lambda>k. case map_of props k of None \<Rightarrow> JUndefined | Some v \<Rightarrow> v)"


section \<open>The workbook: interning of styles and shared strings\<close>

text \<open>
  Modelled from the spec: the class \<open>Style\<close> (\<open>../style/style\<close>) is imported by the workbook
  and is not among the source files. The specification gives each registered component a
  "deterministic canonical serialization of the component's fields (order-independent,
  stable field ordering)": \<open>toObject\<close> of a style built from \<open>opts\<close> is \<open>opts\<close> with the fields
  of every object, at every depth, in ascending order of their names.
\<close>

fun canonical :: "jsval \<Rightarrow> jsval" where
  "canonical (JObject fs) = JObject (sort_key fst (map (\<lambda>(k, v). (k, canonical v)) fs))"
| "canonical (JArray xs) = JArray (map canonical xs)"
| "canonical v = v"

text \<open>
  A \<open>Style\<close> instance, as far as \<open>createStyle\<close> touches it: what \<open>toObject()\<close> returns and
  \<open>ids.cellXfs\<close>, unset in a new instance.
\<close>

record Style =
  toObject :: jsval
  cellXfs :: "nat option"

definition newStyle :: "jsval \<Rightarrow> Style" where
  "newStyle opts = \<lparr>toObject = canonical opts, cellXfs = None\<rparr>"

text \<open>
  The fields of \<open>Workbook\<close> that the operations below read or write. \<open>stylesLookup\<close> is an
  object used as a dictionary from lookup keys to styles.

  Modelled from the spec: the class \<open>DefinedNameCollection\<close> is not among the source files.
  The specification has \<open>addDefinedName(entry)\<close> append unconditionally, with no
  deduplication: the collection is the list of its entries, each the object it was given.
\<close>

record Workbook =
  styles :: "Style list"
  stylesLookup :: "string \<rightharpoonup> Style"
  sharedStrings :: "string list"
  definedNameCollection :: "jsval list"

definition addDefinedName :: "jsval \<Rightarrow> jsval list \<Rightarrow> jsval list" where
  "addDefinedName entry names = names @ [entry]"

text \<open>
  \<open>createStyle\<close> (lines 927-940). \<open>stringify\<close> is \<open>JSON.stringify\<close>, a function of the
  language. The style pushed on \<open>styles\<close> and the one stored in \<open>stylesLookup\<close> are one
  object, so the assignment to \<open>ids.cellXfs\<close> shows in both. The result is the style
  returned and the workbook afterwards.
\<close>

definition createStyle ::
  "(jsval \<Rightarrow> string) \<Rightarrow> Workbook \<Rightarrow> jsval \<Rightarrow> Style \<times> Workbook" where
  "createStyle stringify book opts =
     (let thisStyle = newStyle opts;
          lookupKey = stringify (toObject thisStyle)
      in case stylesLookup book lookupKey of
           Some found \<Rightarrow> (found, book)
         | None \<Rightarrow>
             (let index = length (styles book);
                  registered = thisStyle\<lparr>cellXfs := Some index\<rparr>
              in (registered,
                  book\<lparr>stylesLookup := (stylesLookup book)(lookupKey \<mapsto> registered),
                     styles := styles book @ [registered]\<rparr>)))"

text \<open>\<open>xs.indexOf(v)\<close>: the position of the first element equal to \<open>v\<close>, or \<open>-1\<close>.\<close>

fun indexOf :: "'a list \<Rightarrow> 'a \<Rightarrow> int" where
  "indexOf [] v = -1"
| "indexOf (x # xs) v =
     (if x = v then 0 else (let i = indexOf xs v in if i < 0 then -1 else i + 1))"

text \<open>\<open>getStringIndex\<close> (lines 948-953): the index returned and the workbook afterwards.\<close>

definition getStringIndex :: "Workbook \<Rightarrow> string \<Rightarrow> int \<times> Workbook" where
  "getStringIndex book val =
     (let book' = (if indexOf (sharedStrings book) val < 0
                 then book\<lparr>sharedStrings := sharedStrings book @ [val]\<rparr> else book)
      in (indexOf (sharedStrings book') val, book'))"

text \<open>
  The state the constructor sets up before its own call of \<open>createStyle\<close>, as far as it is
  modelled, and a sequence of interning calls made on a workbook.
\<close>

definition emptyWorkbook :: Workbook where
  "emptyWorkbook =
     \<lparr>styles = [], stylesLookup = Map.empty, sharedStrings = [], definedNameCollection = []\<rparr>"

datatype call = CreateStyle jsval | GetStringIndex string

fun perform :: "(jsval \<Rightarrow> string) \<Rightarrow> Workbook \<Rightarrow> call \<Rightarrow> Workbook" where
  "perform stringify book (CreateStyle opts) = snd (createStyle stringify book opts)"
| "perform stringify book (GetStringIndex val) = snd (getStringIndex book val)"

text \<open>
  Two option values that differ at most in the order in which the fields of their objects
  are written, at any depth.
\<close>

inductive reordered :: "jsval \<Rightarrow> jsval \<Rightarrow> bool" where
  same: "reordered v v"
| fields:
    "list_all2 (\<lambda>f g. fst f = fst g \<and> reordered (snd f) (snd g)) fs hs \<Longrightarrow>
     mset hs = mset gs \<Longrightarrow> reordered (JObject fs) (JObject gs)"
| elements: "list_all2 reordered xs ys \<Longrightarrow> reordered (JArray xs) (JArray ys)"

text \<open>An option value all of whose objects have fields of distinct names.\<close>

fun distinctFields :: "jsval \<Rightarrow> bool" where
  "distinctFields (JObject fs) =
     (distinct (map fst fs) \<and> list_all (\<lambda>(k, v). distinctFields v) fs)"
| "distinctFields (JArray xs) = list_all distinctFields xs"
| "distinctFields v = True"

text \<open>
  The workbooks that interning produces: the style at position \<open>i\<close> carries the index \<open>i\<close>,
  and \<open>stylesLookup\<close> knows exactly the styles of the list, each under its own key.
\<close>

definition interned :: "(jsval \<Rightarrow> string) \<Rightarrow> Workbook \<Rightarrow> bool" where
  "interned stringify book =
     ((\<forall>i < length (styles book). cellXfs (styles book ! i) = Some i)
      \<and> (\<forall>k st. stylesLookup book k = Some st \<longrightarrow>
             st \<in> set (styles book) \<and> stringify (toObject st) = k)
      \<and> (\<forall>st \<in> set (styles book). stylesLookup book (stringify (toObject st)) = Some st))"

text \<open>
  \<open>JSON.stringify\<close>, the function of the language that \<open>createStyle\<close> calls, on the values
  modelled here. A string is written between double quotes with its double quotes,
  backslashes and control characters escaped; a number that is not finite is written
  \<open>null\<close>, as \<open>null\<close> itself is; \<open>undefined\<close> is written \<open>null\<close> in an array and is left out, with its
  key, in an object. The properties of an object are written in their order (a name that
  is an array index would come first; no style option has such a name). The text of a
  finite number is the parameter \<open>fin\<close>. The result for
  \<open>undefined\<close> itself is \<open>undefined\<close>, here \<open>None\<close>; used as a key of \<open>stylesLookup\<close> it names the
  property \<open>undefined\<close>.
\<close>

definition hexDigit :: "nat \<Rightarrow> char" where
  "hexDigit n = (if n < 10 then char_of (48 + n) else char_of (87 + n))"

definition quoteChar :: "char \<Rightarrow> string" where
  "quoteChar c =
     (if c = CHR 0x22 then [CHR 0x5C, CHR 0x22]
      else if c = CHR 0x5C then [CHR 0x5C, CHR 0x5C]
      else if c = CHR 0x08 then [CHR 0x5C, CHR ''b'']
      else if c = CHR 0x0C then [CHR 0x5C, CHR ''f'']
      else if c = CHR 0x0A then [CHR 0x5C, CHR ''n'']
      else if c = CHR 0x0D then [CHR 0x5C, CHR ''r'']
      else if c = CHR 0x09 then [CHR 0x5C, CHR ''t'']
      else if (of_char c :: nat) < 32
        then [CHR 0x5C, CHR ''u'', CHR ''0'', CHR ''0'',
              hexDigit ((of_char c :: nat) div 16), hexDigit ((of_char c :: nat) mod 16)]
      else [c])"

definition QuoteJSONString :: "string \<Rightarrow> string" where
  "QuoteJSONString s = [CHR 0x22] @ concat (map quoteChar s) @ [CHR 0x22]"

fun SerializeJSONProperty :: "(rat \<Rightarrow> string) \<Rightarrow> jsval \<Rightarrow> string option" where
  "SerializeJSONProperty fin JUndefined = None"
| "SerializeJSONProperty fin JNull = Some ''null''"
| "SerializeJSONProperty fin (JBool b) = Some (if b then ''true'' else ''false'')"
| "SerializeJSONProperty fin (JNum (Fin r)) = Some (fin r)"
| "SerializeJSONProperty fin (JNum n) = Some ''null''"
| "SerializeJSONProperty fin (JStr s) = Some (QuoteJSONString s)"
| "SerializeJSONProperty fin (JArray xs) =
     Some (''['' @ join '','' (map (\<lambda>x. case SerializeJSONProperty fin x of
                                          None \<Rightarrow> ''null'' | Some text \<Rightarrow> text) xs) @ '']'')"
| "SerializeJSONProperty fin (JObject fs) =
     Some (''{'' @ join '','' (concat (map (\<lambda>(k, v). case SerializeJSONProperty fin v of
                                                   None \<Rightarrow> []
                                                 | Some text \<Rightarrow> [QuoteJSONString k @ '':'' @ text])
                                         fs)) @ ''}'')"

definition JSON_stringify :: "(rat \<Rightarrow> string) \<Rightarrow> jsval \<Rightarrow> string" where
  "JSON_stringify fin v =
     (case SerializeJSONProperty fin v of None \<Rightarrow> ''undefined'' | Some text \<Rightarrow> text)"

text \<open>
  The closed example below has no finite number in the values it interns, so the text of
  finite numbers is never consulted in it; it passes this one.
\<close>

definition finiteNotConsulted :: "rat \<Rightarrow> string" where
  "finiteNotConsulted r = []"


section \<open>The worksheet XML stages\<close>

text \<open>
  A row, as \<open>_addSheetData\<close> reads it. The properties \<open>r\<close> and \<open>s\<close> are the fields \<open>row_r\<close> and
  \<open>row_s\<close>. The class \<open>Row\<close> is not among the source files; its properties \<open>firstColumn\<close> and
  \<open>lastColumn\<close>, read by \<open>_addAutoFilter\<close>, are parameters beside those of \<open>utils\<close>, and so is
  the table \<open>types.paperSize\<close> of the module \<open>types\<close>, read by \<open>_addPageSetup\<close>. Row and column
  numbers are integers.
\<close>

record Row =
  row_r :: jsval
  spans :: jsval
  row_s :: jsval
  customFormat :: jsval
  ht :: jsval
  hidden :: jsval
  customHeight :: jsval
  outlineLevel :: jsval
  collapsed :: jsval
  thickTop :: jsval
  thickBot :: jsval
  cellRefs :: "string list"

record externals = utils +
  firstColumn :: "Row \<Rightarrow> int"
  lastColumn :: "Row \<Rightarrow> int"
  paperSize :: "jsval \<Rightarrow> jsval"

text \<open>
  A cell is known to these stages by its \<open>addToXMLele\<close> alone: it is the builder calls it
  makes.
\<close>

type_synonym Cell = "xop list"

text \<open>
  \<open>ws.opts.autoFilter\<close>: each bound is a number or, as \<open>None\<close>, a value that is not a number
  (\<open>null\<close> when unset).
\<close>

record AutoFilter =
  startRow :: "int option"
  endRow :: "int option"
  startCol :: "int option"
  endCol :: "int option"

text \<open>
  \<open>ws.opts.sheetFormat\<close>. Its property \<open>thickTop\<close> is the field \<open>format_thickTop\<close>.
\<close>

record SheetFormat =
  baseColWidth :: jsval
  defaultColWidth :: jsval
  defaultRowHeight :: jsval
  thickBottom :: jsval
  format_thickTop :: jsval

text \<open>
  The worksheet, as the stages of \<open>sheetXML\<close> use it; the class \<open>Worksheet\<close> is not among the
  source files. \<open>rows\<close> is an object keyed by row number, \<open>cols\<close> one keyed by column number and
  \<open>cells\<close> one keyed by cell reference. An options object whose properties are read by
  name or enumerated is the list of its properties, in their order; these are the objects
  of \<open>ws.opts\<close>: \<open>sheetProtection\<close>, \<open>printOptions\<close>, \<open>outline\<close>, \<open>pageSetup\<close>, \<open>sheetView\<close>, \<open>margins\<close>
  and \<open>headerFooter\<close>, and a column of \<open>cols\<close>. Of \<open>ws.opts.autoFilter\<close>, the four bounds are the
  field \<open>autoFilter\<close> and the property \<open>ref\<close> is the field \<open>autoFilterRef\<close>; \<open>pane\<close> is
  \<open>ws.opts.sheetView.pane\<close>; \<open>sheetFormat\<close> is \<open>ws.opts.sheetFormat\<close>. \<open>wb\<close> is the owning workbook.
  The collections of conditional formatting rules and of hyperlinks are known to the stages
  by their \<open>addToXMLele\<close> alone, as cells are: each is the builder calls it makes.
  \<open>dataValidationCollection\<close> is the \<open>items\<close> of that collection, \<open>drawingCollectionIsEmpty\<close> is
  \<open>ws.drawingCollection.isEmpty\<close>, and \<open>lastUsedRow\<close>, \<open>lastUsedCol\<close> and \<open>columnCount\<close> are the
  properties of these names.
\<close>

record Worksheet =
  rows :: "(nat \<times> Row) list"
  cells :: "(string \<times> Cell) list"
  sheetFormat :: SheetFormat
  sheetProtection :: "(string \<times> jsval) list"
  autoFilter :: AutoFilter
  name :: string
  localSheetId :: jsval
  wb :: Workbook
  autoFilterRef :: jsval
  printOptions :: "(string \<times> jsval) list"
  outline :: "(string \<times> jsval) list"
  pageSetup :: "(string \<times> jsval) list"
  sheetView :: "(string \<times> jsval) list"
  pane :: "(string \<times> jsval) list"
  margins :: "(string \<times> jsval) list"
  headerFooter :: "(string \<times> jsval) list"
  lastUsedRow :: int
  lastUsedCol :: int
  columnCount :: int
  cols :: "(nat \<times> (string \<times> jsval) list) list"
  mergedCells :: jsval
  cfRulesCollection :: "xop list"
  hyperlinkCollection :: "xop list"
  dataValidationCollection :: "DataValidation list"
  drawingCollectionIsEmpty :: bool
  relationships :: "jsval list"

record PromiseObj =
  ws :: Worksheet
  xml :: "xop list"

text \<open>\<open>Object.keys\<close> of an object keyed by row numbers: ascending, each key once.\<close>

definition rowKeys :: "(nat \<times> Row) list \<Rightarrow> nat list" where
  "rowKeys rs = sort (remdups (map fst rs))"

text \<open>\<open>rows[n]\<close> for a number \<open>n\<close>.\<close>

definition rowAt :: "(nat \<times> Row) list \<Rightarrow> int \<Rightarrow> Row option" where
  "rowAt rs n = (if n < 0 then None else map_of rs (nat n))"

text \<open>\<open>o[k]\<close> for an object with string keys: \<open>undefined\<close> when the key is absent.\<close>

definition getProp :: "(string \<times> jsval) list \<Rightarrow> string \<Rightarrow> jsval" where
  "getProp obj k = (case map_of obj k of None \<Rightarrow> JUndefined | Some v \<Rightarrow> v)"

text \<open>An integer written in decimal, as string concatenation writes a row number.\<close>

fun digits :: "nat \<Rightarrow> string" where
  "digits n =
     (if n < 10 then [char_of (48 + n)] else digits (n div 10) @ [char_of (48 + n mod 10)])"

declare digits.simps [simp del]

definition numberToString :: "int \<Rightarrow> string" where
  "numberToString i = (if i < 0 then ''-'' @ digits (nat (- i)) else digits (nat i))"

subsection \<open>The stages before the sheet data\<close>

text \<open>
  The loop written in four stages (lines 234-238, 377-381, 424-428, 476-480): whether some
  property of the object is not \<open>null\<close>.
\<close>

definition someNotNull :: "(string \<times> jsval) list \<Rightarrow> bool" where
  "someNotNull obj = (\<exists>k \<in> set (map fst obj). getProp obj k \<noteq> JNull)"

text \<open>\<open>_addSheetPr\<close> (lines 7-47).\<close>

definition addSheetPr :: "PromiseObj \<Rightarrow> exn + PromiseObj" where
  "addSheetPr promiseObj =
     (let sheet = ws promiseObj;
          summaryBelow = getProp (outline sheet) ''summaryBelow'';
          summaryRight = getProp (outline sheet) ''summaryRight''
      in if getProp (printOptions sheet) ''fitToHeight'' \<noteq> JNull
            \<or> getProp (printOptions sheet) ''fitToWidth'' \<noteq> JNull
            \<or> summaryBelow \<noteq> JNull
            \<or> autoFilterRef sheet \<noteq> JNull
            \<or> truthy summaryRight
         then Inr (promiseObj\<lparr>xml := xml promiseObj
                @ [Ele ''sheetPr'']
                @ (if truthy (autoFilterRef sheet)
                   then [Att ''enableFormatConditionsCalculation'' (JNum (Fin 1)),
                         Att ''filterMode'' (JNum (Fin 1))]
                   else [])
                @ (if summaryBelow \<noteq> JNull \<or> summaryRight \<noteq> JNull
                   then [Ele ''outlinePr'', Att ''applyStyles'' (JNum (Fin 1)),
                         Att ''summaryBelow'' (JNum (Fin (if summaryBelow = JBool True then 1 else 0))),
                         Att ''summaryRight'' (JNum (Fin (if summaryRight = JBool True then 1 else 0))),
                         Up]
                   else [])
                @ (if getProp (pageSetup sheet) ''fitToHeight'' \<noteq> JNull
                      \<or> getProp (pageSetup sheet) ''fitToWidth'' \<noteq> JNull
                   then [Ele ''pageSetUpPr'', Att ''fitToPage'' (JNum (Fin 1)), Up]
                   else [])
                @ [Up]\<rparr>)
         else Inr promiseObj)"

text \<open>\<open>_addDimension\<close> (lines 49-62).\<close>

definition addDimension :: "externals \<Rightarrow> PromiseObj \<Rightarrow> exn + PromiseObj" where
  "addDimension u promiseObj =
     (let firstCell = ''A1'';
          lastCell = getExcelAlpha u (lastUsedCol (ws promiseObj))
                     @ numberToString (lastUsedRow (ws promiseObj))
      in Inr (promiseObj\<lparr>xml := xml promiseObj
                @ [Ele ''dimension'', Att ''ref'' (JStr (firstCell @ '':'' @ lastCell)), Up]\<rparr>))"

text \<open>\<open>_addSheetViews\<close> (lines 64-103).\<close>

definition addSheetViews :: "PromiseObj \<Rightarrow> exn + PromiseObj" where
  "addSheetViews promiseObj =
     (let view = sheetView (ws promiseObj);
          p = pane (ws promiseObj);
          modifiedPaneParams = filter (\<lambda>k. getProp p k \<noteq> JNull) (map fst p)
      in Inr (promiseObj\<lparr>xml := xml promiseObj
                @ [Ele ''sheetViews'', Ele ''sheetView'',
                   Att ''showGridLines'' (getProp view ''showGridLines''),
                   Att ''tabSelected'' (getProp view ''tabSelected''),
                   Att ''workbookViewId'' (getProp view ''workbookViewId''),
                   Att ''rightToLeft'' (getProp view ''rightToLeft''),
                   Att ''zoomScale'' (getProp view ''zoomScale''),
                   Att ''zoomScaleNormal'' (getProp view ''zoomScaleNormal''),
                   Att ''zoomScalePageLayoutView'' (getProp view ''zoomScalePageLayoutView'')]
                @ (if length modifiedPaneParams > 0
                   then [Ele ''pane'']
                        @ attIf (getProp p ''xSplit'' \<noteq> JNull) ''xSplit'' (getProp p ''xSplit'')
                        @ attIf (getProp p ''ySplit'' \<noteq> JNull) ''ySplit'' (getProp p ''ySplit'')
                        @ attIf (getProp p ''topLeftCell'' \<noteq> JNull) ''topLeftCell''
                            (getProp p ''topLeftCell'')
                        @ attIf (getProp p ''activePane'' \<noteq> JNull) ''activePane''
                            (getProp p ''activePane'')
                        @ attIf (getProp p ''state'' \<noteq> JNull) ''state'' (getProp p ''state'')
                        @ [Up]
                   else [])
                @ [Up, Up]\<rparr>))"

text \<open>\<open>_addSheetFormatPr\<close> (lines 105-131).\<close>

definition addSheetFormatPr :: "externals \<Rightarrow> PromiseObj \<Rightarrow> exn + PromiseObj" where
  "addSheetFormatPr u promiseObj =
     (let fmt = sheetFormat (ws promiseObj)
      in Inr (promiseObj\<lparr>xml := xml promiseObj
                @ [Ele ''sheetFormatPr'']
                @ attIf (baseColWidth fmt \<noteq> JNull) ''baseColWidth'' (baseColWidth fmt)
                @ attIf (defaultColWidth fmt \<noteq> JNull) ''defaultColWidth'' (defaultColWidth fmt)
                @ [if defaultRowHeight fmt \<noteq> JNull
                   then Att ''defaultRowHeight'' (defaultRowHeight fmt)
                   else Att ''defaultRowHeight'' (JNum (Fin 16))]
                @ attIf (thickBottom fmt \<noteq> JNull) ''thickBottom'' (boolToInt u (thickBottom fmt))
                @ attIf (format_thickTop fmt \<noteq> JNull) ''thickTop''
                    (boolToInt u (format_thickTop fmt))
                @ attIf (typeof (defaultRowHeight fmt) = ''number'') ''customHeight'' (JStr ''1'')
                @ [Up]\<rparr>))"

text \<open>
  \<open>_addCols\<close> (lines 133-166). \<open>for (const colId in cols)\<close> goes through the column numbers in
  ascending order, each once.
\<close>

definition colKeys :: "(nat \<times> (string \<times> jsval) list) list \<Rightarrow> nat list" where
  "colKeys cs = sort (remdups (map fst cs))"

definition colAtts :: "externals \<Rightarrow> (string \<times> jsval) list \<Rightarrow> xop list" where
  "colAtts u col =
     attIf (getProp col ''min'' \<noteq> JNull) ''min'' (getProp col ''min'')
     @ attIf (getProp col ''max'' \<noteq> JNull) ''max'' (getProp col ''max'')
     @ attIf (getProp col ''width'' \<noteq> JNull) ''width'' (getProp col ''width'')
     @ attIf (getProp col ''style'' \<noteq> JNull) ''style'' (getProp col ''style'')
     @ attIf (getProp col ''hidden'' \<noteq> JNull) ''hidden'' (boolToInt u (getProp col ''hidden''))
     @ attIf (getProp col ''customWidth'' \<noteq> JNull) ''customWidth''
         (boolToInt u (getProp col ''customWidth''))
     @ attIf (getProp col ''outlineLevel'' \<noteq> JNull) ''outlineLevel''
         (getProp col ''outlineLevel'')
     @ attIf (getProp col ''collapsed'' \<noteq> JNull) ''collapsed''
         (boolToInt u (getProp col ''collapsed''))"

fun addColumns ::
  "externals \<Rightarrow> (nat \<times> (string \<times> jsval) list) list \<Rightarrow> nat list \<Rightarrow> exn + xop list" where
  "addColumns u cs [] = Inr []"
| "addColumns u cs (colId # colIds) =
     (case map_of cs colId of
        None \<Rightarrow> Inl (TypeError ''Cannot read property min of undefined'')
      | Some col \<Rightarrow>
          (case addColumns u cs colIds of
             Inl e \<Rightarrow> Inl e
           | Inr rest \<Rightarrow> Inr ([Ele ''col''] @ colAtts u col @ [Up] @ rest)))"

definition addCols :: "externals \<Rightarrow> PromiseObj \<Rightarrow> exn + PromiseObj" where
  "addCols u promiseObj =
     (if columnCount (ws promiseObj) > 0 then
        (case addColumns u (cols (ws promiseObj)) (colKeys (cols (ws promiseObj))) of
           Inl e \<Rightarrow> Inl e
         | Inr colCalls \<Rightarrow>
             Inr (promiseObj\<lparr>xml := xml promiseObj @ [Ele ''cols''] @ colCalls @ [Up]\<rparr>))
      else Inr promiseObj)"

subsection \<open>Sheet data\<close>

text \<open>The attributes of one \<open>row\<close> element (lines 181-204).\<close>

definition rowAtts :: "Worksheet \<Rightarrow> Row \<Rightarrow> xop list" where
  "rowAtts sheet thisRow =
     [Att ''r'' (row_r thisRow), Att ''spans'' (spans thisRow)]
     @ attIf (row_s thisRow \<noteq> JNull) ''s'' (row_s thisRow)
     @ attIf (customFormat thisRow \<noteq> JNull) ''customFormat'' (customFormat thisRow)
     @ attIf (ht thisRow \<noteq> JNull) ''ht'' (ht thisRow)
     @ attIf (hidden thisRow \<noteq> JNull) ''hidden'' (hidden thisRow)
     @ attIf (customHeight thisRow = JBool True
              \<or> typeof (defaultRowHeight (sheetFormat sheet)) = ''number'')
         ''customHeight'' (JNum (Fin 1))
     @ attIf (outlineLevel thisRow \<noteq> JNull) ''outlineLevel'' (outlineLevel thisRow)
     @ attIf (collapsed thisRow \<noteq> JNull) ''collapsed'' (collapsed thisRow)
     @ attIf (thickTop thisRow \<noteq> JNull) ''thickTop'' (thickTop thisRow)
     @ attIf (thickBot thisRow \<noteq> JNull) ''thickBot'' (thickBot thisRow)"

text \<open>
  Lines 206-208: each cell of the row writes itself; a reference with no cell behind it
  ends the stage with a TypeError.
\<close>

fun addCells :: "(string \<times> Cell) list \<Rightarrow> string list \<Rightarrow> exn + xop list" where
  "addCells cs [] = Inr []"
| "addCells cs (ref # refs) =
     (case map_of cs ref of
        None \<Rightarrow> Inl (TypeError ''Cannot read property addToXMLele of undefined'')
      | Some cell \<Rightarrow>
          (case addCells cs refs of Inl e \<Rightarrow> Inl e | Inr rest \<Rightarrow> Inr (cell @ rest)))"

text \<open>
  One turn of the loop of \<open>processRows\<close> (lines 176-210). \<open>sortCellRefs u\<close> is what
  \<open>cellRefs.sort(utils.sortCellRefs)\<close> leaves in the array, which it sorts in place.
\<close>

definition processRow :: "externals \<Rightarrow> PromiseObj \<Rightarrow> nat \<Rightarrow> exn + PromiseObj" where
  "processRow u promiseObj key =
     (case map_of (rows (ws promiseObj)) key of
        None \<Rightarrow> Inl (TypeError ''Cannot read property cellRefs of undefined'')
      | Some thisRow \<Rightarrow>
          (let sortedRow = thisRow\<lparr>cellRefs := sortCellRefs u (cellRefs thisRow)\<rparr>;
               sheet = (ws promiseObj)\<lparr>rows := AList.update key sortedRow (rows (ws promiseObj))\<rparr>
           in case addCells (cells sheet) (cellRefs sortedRow) of
                Inl e \<Rightarrow> Inl e
              | Inr cellCalls \<Rightarrow>
                  Inr (promiseObj\<lparr>ws := sheet,
                         xml := xml promiseObj @ [Ele ''row''] @ rowAtts sheet sortedRow
                                @ cellCalls @ [Up]\<rparr>)))"

text \<open>The loop of \<open>processRows\<close> over one batch.\<close>

fun processRows :: "externals \<Rightarrow> nat list \<Rightarrow> PromiseObj \<Rightarrow> exn + PromiseObj" where
  "processRows u [] promiseObj = Inr promiseObj"
| "processRows u (key # theseRows) promiseObj =
     (case processRow u promiseObj key of
        Inl e \<Rightarrow> Inl e
      | Inr after \<Rightarrow> processRows u theseRows after)"

text \<open>
  \<open>processNextRows\<close> (lines 216-223) with the call of itself that ends \<open>processRows\<close> (line
  213): \<open>remaining\<close> is the array \<open>rows\<close> that \<open>splice(0, chunk)\<close> shortens, \<open>chunk\<close> is 500
  in the source.
\<close>

function processNextRows ::
  "externals \<Rightarrow> nat \<Rightarrow> nat list \<Rightarrow> PromiseObj \<Rightarrow> exn + PromiseObj" where
  "processNextRows u chunk remaining promiseObj =
     (let theseRows = take chunk remaining
      in if length theseRows = 0 then Inr (promiseObj\<lparr>xml := xml promiseObj @ [Up]\<rparr>)
         else (case processRows u theseRows promiseObj of
                 Inl e \<Rightarrow> Inl e
               | Inr after \<Rightarrow> processNextRows u chunk (drop chunk remaining) after))"
  by pat_completeness auto
termination
  by (relation "measure (\<lambda>(u, chunk, remaining, promiseObj). length remaining)") auto

declare processNextRows.simps [simp del]

definition addSheetData :: "externals \<Rightarrow> PromiseObj \<Rightarrow> exn + PromiseObj" where
  "addSheetData u promiseObj =
     processNextRows u 500 (rowKeys (rows (ws promiseObj)))
       (promiseObj\<lparr>xml := xml promiseObj @ [Ele ''sheetData'']\<rparr>)"

text \<open>
  Following the specification's words, for comparison with the above: "a single unchunked
  linear traversal of all rows".
\<close>

definition unbatchedSheetData :: "externals \<Rightarrow> PromiseObj \<Rightarrow> exn + PromiseObj" where
  "unbatchedSheetData u promiseObj =
     (case processRows u (rowKeys (rows (ws promiseObj)))
             (promiseObj\<lparr>xml := xml promiseObj @ [Ele ''sheetData'']\<rparr>) of
        Inl e \<Rightarrow> Inl e
      | Inr finished \<Rightarrow> Inr (finished\<lparr>xml := xml finished @ [Up]\<rparr>))"

subsection \<open>Sheet protection\<close>

text \<open>Lines 247-255: one attribute for each key whose value is not \<open>null\<close>.\<close>

definition protectionAtts :: "externals \<Rightarrow> (string \<times> jsval) list \<Rightarrow> xop list" where
  "protectionAtts u obj =
     concat (map (\<lambda>k.
       if getProp obj k \<noteq> JNull then
         (if k = ''password'' then [Att ''password'' (getHashOfPassword u (getProp obj k))]
          else [Att k (boolToInt u (getProp obj k))])
       else []) (map fst obj))"

definition addSheetProtection :: "externals \<Rightarrow> PromiseObj \<Rightarrow> exn + PromiseObj" where
  "addSheetProtection u promiseObj =
     (let obj = sheetProtection (ws promiseObj);
          includeSheetProtection = (\<exists>k \<in> set (map fst obj). getProp obj k \<noteq> JNull)
      in if includeSheetProtection then
           (let obj1 = AList.update ''sheet''
                         (if getProp obj ''sheet'' \<noteq> JNull then getProp obj ''sheet'' else JBool True) obj;
                obj2 = AList.update ''objects''
                         (if getProp obj1 ''objects'' \<noteq> JNull then getProp obj1 ''objects''
                          else JBool True) obj1;
                obj3 = AList.update ''scenarios''
                         (if getProp obj2 ''scenarios'' \<noteq> JNull then getProp obj2 ''scenarios''
                          else JBool True) obj2
            in Inr (promiseObj\<lparr>ws := (ws promiseObj)\<lparr>sheetProtection := obj3\<rparr>,
                      xml := xml promiseObj @ [Ele ''sheetProtection'']
                             @ protectionAtts u obj3 @ [Up]\<rparr>))
         else Inr promiseObj)"

subsection \<open>Auto filter\<close>

text \<open>
  The loop of lines 275-283: from \<open>curRow\<close> upwards, the first row number with no row. It
  ends because each turn that goes on has found one more of the finitely many rows.
\<close>

function firstEmptyRow :: "(nat \<times> Row) list \<Rightarrow> int \<Rightarrow> int" where
  "firstEmptyRow rs curRow =
     (if rowAt rs curRow = None then curRow else firstEmptyRow rs (curRow + 1))"
  by pat_completeness auto
termination
proof (relation "measure (\<lambda>(rs, curRow). length (filter (\<lambda>k. curRow \<le> int k) (map fst rs)))")
  show "wf (measure (\<lambda>(rs, curRow). length (filter (\<lambda>k. curRow \<le> int k) (map fst rs))))"
    by simp
next
  fix rs :: "(nat \<times> Row) list" and curRow :: int
  assume found: "rowAt rs curRow \<noteq> None"
  then have pos: "0 \<le> curRow" and "map_of rs (nat curRow) \<noteq> None"
    by (auto simp: rowAt_def split: if_splits)
  then have mem: "nat curRow \<in> set (map fst rs)"
    by (metis map_of_eq_None_iff set_map)
  have "length (filter (\<lambda>k. curRow + 1 \<le> int k) ks) < length (filter (\<lambda>k. curRow \<le> int k) ks)"
    if "nat curRow \<in> set ks" for ks
    using that pos
  proof (induction ks)
    case Nil
    then show ?case by simp
  next
    case (Cons k ks)
    have le: "length (filter (\<lambda>k. curRow + 1 \<le> int k) ks)
              \<le> length (filter (\<lambda>k. curRow \<le> int k) ks)"
      by (induction ks) auto
    show ?case
    proof (cases "nat curRow \<in> set ks")
      case True
      with Cons show ?thesis by auto
    next
      case False
      with Cons.prems have "k = nat curRow" by simp
      with pos le show ?thesis by auto
    qed
  qed
  from this[OF mem]
  show "((rs, curRow + 1), (rs, curRow))
        \<in> measure (\<lambda>(rs, curRow). length (filter (\<lambda>k. curRow \<le> int k) (map fst rs)))"
    by simp
qed

declare firstEmptyRow.simps [simp del]

text \<open>
  \<open>_addAutoFilter\<close> (lines 262-322). The entry given to \<open>addDefinedName\<close> is the object
  literal of lines 298-317.
\<close>

definition addAutoFilter :: "externals \<Rightarrow> PromiseObj \<Rightarrow> exn + PromiseObj" where
  "addAutoFilter u promiseObj =
     (let sheet = ws promiseObj; f = autoFilter sheet
      in case startRow f of
           None \<Rightarrow> Inr promiseObj
         | Some startRow' \<Rightarrow>
            (let filterRow = rowAt (rows sheet) startRow';
                 endRow' = (case endRow f of
                              Some given \<Rightarrow> given
                            | None \<Rightarrow> firstEmptyRow (rows sheet) startRow' - 1)
             in case (case (startCol f, endCol f) of
                        (Some givenStart, Some givenEnd) \<Rightarrow> Inr (givenStart, givenEnd)
                      | _ \<Rightarrow>
                         (case filterRow of
                            None \<Rightarrow>
                              Inl (TypeError ''Cannot read property firstColumn of undefined'')
                          | Some row \<Rightarrow> Inr (firstColumn u row, lastColumn u row))) of
                  Inl e \<Rightarrow> Inl e
                | Inr (startCol', endCol') \<Rightarrow>
                   (let startCell = getExcelAlpha u startCol' @ numberToString startRow';
                        endCell = getExcelAlpha u endCol' @ numberToString endRow';
                        entry = JObject
                          [(''hidden'', JNum (Fin 1)),
                           (''localSheetId'', localSheetId sheet),
                           (''name'', JStr ''_xlnm._FilterDatabase''),
                           (''refFormula'', JStr
                              ([CHR 0x27] @ name sheet @ [CHR 0x27] @ ''!'' @ ''$''
                               @ getExcelAlpha u startCol' @ ''$'' @ numberToString startRow'
                               @ '':'' @ ''$'' @ getExcelAlpha u endCol' @ ''$''
                               @ numberToString endRow'))]
                    in Inr (promiseObj
                         \<lparr>ws := sheet
                            \<lparr>autoFilter := \<lparr>startRow = Some startRow', endRow = Some endRow',
                                            startCol = Some startCol', endCol = Some endCol'\<rparr>,
                             wb := (wb sheet)
                               \<lparr>definedNameCollection :=
                                  addDefinedName entry (definedNameCollection (wb sheet))\<rparr>\<rparr>,
                          xml := xml promiseObj
                                 @ [Ele ''autoFilter'',
                                    Att ''ref'' (JStr (startCell @ '':'' @ endCell)), Up]\<rparr>))))"

subsection \<open>The stages after the auto filter\<close>

text \<open>\<open>_addMergeCells\<close> (lines 324-345).\<close>

definition addMergeCells :: "PromiseObj \<Rightarrow> exn + PromiseObj" where
  "addMergeCells promiseObj =
     (case mergedCells (ws promiseObj) of
        JArray crs \<Rightarrow>
          (if length crs > 0 then
             Inr (promiseObj\<lparr>xml := xml promiseObj
                    @ [Ele ''mergeCells'', Att ''count'' (JNum (Fin (of_nat (length crs))))]
                    @ concat (map (\<lambda>cr. [Ele ''mergeCell'', Att ''ref'' cr, Up]) crs)
                    @ [Up]\<rparr>)
           else Inr promiseObj)
      | _ \<Rightarrow> Inr promiseObj)"

text \<open>\<open>_addConditionalFormatting\<close> (lines 347-353) and \<open>_addHyperlinks\<close> (lines 355-361).\<close>

definition addConditionalFormatting :: "PromiseObj \<Rightarrow> exn + PromiseObj" where
  "addConditionalFormatting promiseObj =
     Inr (promiseObj\<lparr>xml := xml promiseObj @ cfRulesCollection (ws promiseObj)\<rparr>)"

definition addHyperlinks :: "PromiseObj \<Rightarrow> exn + PromiseObj" where
  "addHyperlinks promiseObj =
     Inr (promiseObj\<lparr>xml := xml promiseObj @ hyperlinkCollection (ws promiseObj)\<rparr>)"

text \<open>
  \<open>_addDataValidations\<close> (lines 363-371). A rule whose formula \<open>cleanFormula\<close> cannot read
  ends the stage with the exception.
\<close>

definition addDataValidations :: "externals \<Rightarrow> PromiseObj \<Rightarrow> exn + PromiseObj" where
  "addDataValidations u promiseObj =
     (if length (dataValidationCollection (ws promiseObj)) > 0 then
        (case DataValidationCollection_addToXMLele u (dataValidationCollection (ws promiseObj)) of
           (calls, Some e) \<Rightarrow> Inl e
         | (calls, None) \<Rightarrow> Inr (promiseObj\<lparr>xml := xml promiseObj @ calls\<rparr>))
      else Inr promiseObj)"

text \<open>\<open>_addPrintOptions\<close> (lines 373-398).\<close>

definition addPrintOptions :: "PromiseObj \<Rightarrow> exn + PromiseObj" where
  "addPrintOptions promiseObj =
     (let po = printOptions (ws promiseObj)
      in if someNotNull po then
           Inr (promiseObj\<lparr>xml := xml promiseObj
                  @ [Ele ''printOptions'']
                  @ attIf (getProp po ''centerHorizontal'' = JBool True) ''horizontalCentered''
                      (JNum (Fin 1))
                  @ attIf (getProp po ''centerVertical'' = JBool True) ''verticalCentered''
                      (JNum (Fin 1))
                  @ attIf (getProp po ''printHeadings'' = JBool True) ''headings'' (JNum (Fin 1))
                  @ (if getProp po ''printGridLines'' = JBool True
                     then [Att ''gridLines'' (JNum (Fin 1)), Att ''gridLinesSet'' (JNum (Fin 1))] else [])
                  @ [Up]\<rparr>)
         else Inr promiseObj)"

text \<open>\<open>_addPageMargins\<close> (lines 400-417).\<close>

definition addPageMargins :: "PromiseObj \<Rightarrow> exn + PromiseObj" where
  "addPageMargins promiseObj =
     (let m = margins (ws promiseObj)
      in Inr (promiseObj\<lparr>xml := xml promiseObj
                @ [Ele ''pageMargins'',
                   Att ''left'' (getProp m ''left''),
                   Att ''right'' (getProp m ''right''),
                   Att ''top'' (getProp m ''top''),
                   Att ''bottom'' (getProp m ''bottom''),
                   Att ''header'' (getProp m ''header''),
                   Att ''footer'' (getProp m ''footer''),
                   Up]\<rparr>))"

text \<open>
  \<open>_addPageSetup\<close> (lines 419-469). \<open>plainAtt\<close> is an attribute written with the property as it
  is, \<open>boolAtt\<close> one written through \<open>utils.boolToInt\<close>; both are left out when the property is
  \<open>null\<close>.
\<close>

definition plainAtt :: "(string \<times> jsval) list \<Rightarrow> string \<Rightarrow> xop list" where
  "plainAtt obj k = attIf (getProp obj k \<noteq> JNull) k (getProp obj k)"

definition boolAtt :: "externals \<Rightarrow> (string \<times> jsval) list \<Rightarrow> string \<Rightarrow> xop list" where
  "boolAtt u obj k = attIf (getProp obj k \<noteq> JNull) k (boolToInt u (getProp obj k))"

definition addPageSetup :: "externals \<Rightarrow> PromiseObj \<Rightarrow> exn + PromiseObj" where
  "addPageSetup u promiseObj =
     (let ps = pageSetup (ws promiseObj)
      in if someNotNull ps then
           Inr (promiseObj\<lparr>xml := xml promiseObj
                  @ [Ele ''pageSetup'']
                  @ attIf (getProp ps ''paperSize'' \<noteq> JNull) ''paperSize''
                      (paperSize u (getProp ps ''paperSize''))
                  @ plainAtt ps ''paperHeight''
                  @ plainAtt ps ''paperWidth''
                  @ plainAtt ps ''scale''
                  @ plainAtt ps ''firstPageNumber''
                  @ plainAtt ps ''fitToWidth''
                  @ plainAtt ps ''fitToHeight''
                  @ plainAtt ps ''pageOrder''
                  @ plainAtt ps ''orientation''
                  @ boolAtt u ps ''usePrinterDefaults''
                  @ boolAtt u ps ''blackAndWhite''
                  @ boolAtt u ps ''draft''
                  @ plainAtt ps ''cellComments''
                  @ boolAtt u ps ''useFirstPageNumber''
                  @ plainAtt ps ''errors''
                  @ plainAtt ps ''horizontalDpi''
                  @ plainAtt ps ''verticalDpi''
                  @ plainAtt ps ''copies''
                  @ [Up]\<rparr>)
         else Inr promiseObj)"

text \<open>
  \<open>_addHeaderFooter\<close> (lines 471-539). \<open>textEle\<close> is an element with the property as its
  text, left out when the property is \<open>null\<close>.
\<close>

definition textEle :: "(string \<times> jsval) list \<Rightarrow> string \<Rightarrow> xop list" where
  "textEle obj k = (if getProp obj k \<noteq> JNull then [Ele k, Text (getProp obj k), Up] else [])"

definition addHeaderFooter :: "externals \<Rightarrow> PromiseObj \<Rightarrow> exn + PromiseObj" where
  "addHeaderFooter u promiseObj =
     (let hf = headerFooter (ws promiseObj)
      in if someNotNull hf then
           Inr (promiseObj\<lparr>xml := xml promiseObj
                  @ [Ele ''headerFooter'']
                  @ boolAtt u hf ''alignWithMargins''
                  @ boolAtt u hf ''differentFirst''
                  @ boolAtt u hf ''differentOddEven''
                  @ boolAtt u hf ''scaleWithDoc''
                  @ textEle hf ''oddHeader''
                  @ textEle hf ''oddFooter''
                  @ textEle hf ''evenHeader''
                  @ textEle hf ''evenFooter''
                  @ textEle hf ''firstHeader''
                  @ textEle hf ''firstFooter''
                  @ [Up]\<rparr>)
         else Inr promiseObj)"

text \<open>
  \<open>_addDrawing\<close> (lines 541-553). \<open>relationships\<close> holds the string \<open>'drawing'\<close> or hyperlinks.
\<close>

definition addDrawing :: "PromiseObj \<Rightarrow> exn + PromiseObj" where
  "addDrawing promiseObj =
     (if \<not> drawingCollectionIsEmpty (ws promiseObj) then
        (let dId = indexOf (relationships (ws promiseObj)) (JStr ''drawing'') + 1
         in Inr (promiseObj\<lparr>xml := xml promiseObj
                   @ [Ele ''drawing'', Att ''r:id'' (JStr (''rId'' @ numberToString dId)), Up]\<rparr>))
      else Inr promiseObj)"

subsection \<open>The stages in the order of \<open>sheetXML\<close>\<close>

text \<open>
  \<open>sheetXML\<close> (lines 555-612): the root element, then the chain of the seventeen stages on
  one \<open>promiseObj\<close>. A stage that throws ends the chain. The result is the \<open>promiseObj\<close> that
  the step after the last stage receives; that step ends the document and resolves with
  the text that the builder has written for the calls of \<open>xml\<close>.
\<close>

definition stages :: "externals \<Rightarrow> (PromiseObj \<Rightarrow> exn + PromiseObj) list" where
  "stages u =
     [addSheetPr, addDimension u, addSheetViews, addSheetFormatPr u, addCols u,
      addSheetData u, addSheetProtection u, addAutoFilter u,
      addMergeCells, addConditionalFormatting, addDataValidations u, addHyperlinks,
      addPrintOptions, addPageMargins, addPageSetup u, addHeaderFooter u, addDrawing]"

definition worksheetRoot :: "xop list" where
  "worksheetRoot =
     [Ele ''worksheet'',
      Att ''mc:Ignorable'' (JStr ''x14ac''),
      Att ''xmlns'' (JStr ''http://schemas.openxmlformats.org/spreadsheetml/2006/main''),
      Att ''xmlns:mc'' (JStr ''http://schemas.openxmlformats.org/markup-compatibility/2006''),
      Att ''xmlns:r''
        (JStr ''http://schemas.openxmlformats.org/officeDocument/2006/relationships''),
      Att ''xmlns:x14ac'' (JStr ''http://schemas.microsoft.com/office/spreadsheetml/2009/9/ac'')]"

definition sheetXML :: "externals \<Rightarrow> Worksheet \<Rightarrow> exn + PromiseObj" where
  "sheetXML u sheet = foldl bind (Inr \<lparr>ws = sheet, xml = worksheetRoot\<rparr>) (stages u)"

subsection \<open>An instance of the parameters for closed examples\<close>

text \<open>
  Modelled from the spec: the module \<open>utils\<close> and the class \<open>Row\<close> are not among the source
  files. The specification names, among the cell-reference utilities, "column letter
  \<open>\<leftrightarrow>\<close> number conversion" and "a comparator that orders references by column then row",
  and has a row's "observed first and last populated column"; the password hash is an
  opaque collaborator and no example below has a password. Every theorem is proved for all
  parameters; this instance only evaluates examples.
\<close>

function columnLetters :: "nat \<Rightarrow> string" where
  "columnLetters n =
     (if n = 0 then []
      else columnLetters ((n - 1) div 26) @ [char_of (65 + (n - 1) mod 26)])"
  by pat_completeness auto
termination
  by (relation "measure id") auto

declare columnLetters.simps [simp del]

definition isLetter :: "char \<Rightarrow> bool" where
  "isLetter c = (65 \<le> (of_char c :: nat) \<and> (of_char c :: nat) \<le> 90)"

definition refColumn :: "string \<Rightarrow> nat" where
  "refColumn ref = foldl (\<lambda>acc c. acc * 26 + (of_char c - 64)) 0 (takeWhile isLetter ref)"

definition refRow :: "string \<Rightarrow> nat" where
  "refRow ref = foldl (\<lambda>acc c. acc * 10 + (of_char c - 48)) 0 (dropWhile isLetter ref)"

definition exampleExternals :: externals where
  "exampleExternals =
     \<lparr>boolToInt = (\<lambda>v. if v = JBool True then JNum (Fin 1)
                        else if v = JBool False then JNum (Fin 0) else v),
      getExcelAlpha = (\<lambda>n. columnLetters (nat n)),
      sortCellRefs = sort_key (\<lambda>ref. (refColumn ref, refRow ref)),
      getHashOfPassword = (\<lambda>v. v),
      firstColumn = (\<lambda>row. if cellRefs row = [] then 1
                            else int (Min (refColumn ` set (cellRefs row)))),
      lastColumn = (\<lambda>row. if cellRefs row = [] then 1
                           else int (Max (refColumn ` set (cellRefs row)))),
      paperSize = (\<lambda>v. v)\<rparr>"


text \<open>
  The worksheet of the examples: rows 5, 6 and 7, each with three cells written out of
  column order, an auto filter of which only the start row is set, sheet protection with
  one option set, one merged range and one data validation rule.
\<close>

definition exampleRow :: "nat \<Rightarrow> Row" where
  "exampleRow n =
     \<lparr>row_r = JNum (Fin (of_nat n)), spans = JStr ''1:3'', row_s = JNull, customFormat = JNull,
      ht = JNull, hidden = JNull, customHeight = JNull, outlineLevel = JNull,
      collapsed = JNull, thickTop = JNull, thickBot = JNull,
      cellRefs = [''C'' @ digits n, ''A'' @ digits n, ''B'' @ digits n]\<rparr>"

definition exampleCell :: "string \<Rightarrow> string \<times> Cell" where
  "exampleCell ref = (ref, [Ele ''c'', Att ''r'' (JStr ref), Up])"

definition exampleSheet :: Worksheet where
  "exampleSheet =
     \<lparr>rows = [(5, exampleRow 5), (6, exampleRow 6), (7, exampleRow 7)],
      cells = map exampleCell
        [''A5'', ''B5'', ''C5'', ''A6'', ''B6'', ''C6'', ''A7'', ''B7'', ''C7''],
      sheetFormat = \<lparr>baseColWidth = JNum (Fin 10), defaultColWidth = JNull,
                     defaultRowHeight = JNull, thickBottom = JNull, format_thickTop = JNull\<rparr>,
      sheetProtection =
        [(''sheet'', JNull), (''objects'', JNull), (''scenarios'', JNull),
         (''password'', JNull), (''sort'', JBool False)],
      autoFilter = \<lparr>startRow = Some 5, endRow = None, startCol = None, endCol = None\<rparr>,
      name = ''Sheet1'',
      localSheetId = JNum (Fin 0),
      wb = emptyWorkbook,
      autoFilterRef = JNull,
      printOptions =
        [(''centerHorizontal'', JBool True), (''centerVertical'', JNull),
         (''printGridLines'', JNull), (''printHeadings'', JNull)],
      outline = [(''summaryBelow'', JNull), (''summaryRight'', JNull)],
      pageSetup =
        [(''paperSize'', JNull), (''paperHeight'', JNull), (''paperWidth'', JNull),
         (''scale'', JNull), (''firstPageNumber'', JNull), (''fitToWidth'', JNull),
         (''fitToHeight'', JNull), (''pageOrder'', JNull),
         (''orientation'', JStr ''landscape''), (''usePrinterDefaults'', JNull),
         (''blackAndWhite'', JNull), (''draft'', JNull), (''cellComments'', JNull),
         (''useFirstPageNumber'', JNull), (''errors'', JNull), (''horizontalDpi'', JNull),
         (''verticalDpi'', JNull), (''copies'', JNull)],
      sheetView =
        [(''showGridLines'', JNull), (''tabSelected'', JNum (Fin 0)), (''workbookViewId'', JNum (Fin 0)),
         (''rightToLeft'', JNum (Fin 0)), (''zoomScale'', JNum (Fin 100)),
         (''zoomScaleNormal'', JNum (Fin 100)), (''zoomScalePageLayoutView'', JNum (Fin 100))],
      pane = [(''xSplit'', JNull), (''ySplit'', JNull), (''state'', JNull)],
      margins =
        [(''left'', JNum (Fin (7 / 10))), (''right'', JNum (Fin (7 / 10))),
         (''top'', JNum (Fin (3 / 4))), (''bottom'', JNum (Fin (3 / 4))),
         (''header'', JNum (Fin (3 / 10))), (''footer'', JNum (Fin (3 / 10)))],
      headerFooter = [(''oddHeader'', JNull), (''oddFooter'', JNull)],
      lastUsedRow = 7,
      lastUsedCol = 3,
      columnCount = 0,
      cols = [],
      mergedCells = JArray [JStr ''A5:B5''],
      cfRulesCollection = [],
      hyperlinkCollection = [],
      dataValidationCollection =
        [newDataValidation\<lparr>sqref := JStr ''A6:A7'', formula1 := JStr ''Option A''\<rparr>],
      drawingCollectionIsEmpty = True,
      relationships = []\<rparr>"


section \<open>Notions used in the proofs\<close>

text \<open>What a run of constructor blocks leaves of \<open>opts\<close>, or the exception.\<close>

definition optsOf :: "exn + ctor_state \<Rightarrow> exn + DataValidationConstructorOpts" where
  "optsOf r = (case r of Inl e \<Rightarrow> Inl e | Inr (opts, this) \<Rightarrow> Inr opts)"

text \<open>A block whose exception and whose effect on \<open>opts\<close> do not depend on \<open>this\<close>.\<close>

definition optsDriven :: "(ctor_state \<Rightarrow> exn + ctor_state) \<Rightarrow> bool" where
  "optsDriven b = (\<forall>opts this this'. optsOf (b (opts, this)) = optsOf (b (opts, this')))"

text \<open>A block that keeps a property of the state whenever it returns.\<close>

definition preserves ::
  "(ctor_state \<Rightarrow> bool) \<Rightarrow> (ctor_state \<Rightarrow> exn + ctor_state) \<Rightarrow> bool" where
  "preserves I b = (\<forall>s s'. I s \<longrightarrow> b s = Inr s' \<longrightarrow> I s')"

text \<open>A workbook whose tables extend those of an earlier one, entry for entry.\<close>

definition grownFrom :: "Workbook \<Rightarrow> Workbook \<Rightarrow> bool" where
  "grownFrom book book' =
     ((\<exists>xs. styles book' = styles book @ xs)
      \<and> (\<exists>ys. sharedStrings book' = sharedStrings book @ ys)
      \<and> (\<forall>k st. stylesLookup book k = Some st \<longrightarrow> stylesLookup book' k = Some st))"

text \<open>A stage that leaves the worksheet as it is whenever it returns.\<close>

definition keepsSheet :: "(PromiseObj \<Rightarrow> exn + PromiseObj) \<Rightarrow> bool" where
  "keepsSheet stage = (\<forall>p q. stage p = Inr q \<longrightarrow> ws q = ws p)"


section \<open>Properties of dataValidation.ts\<close>

subsection \<open>Formula quoting\<close>

lemma Text_notin_attIf: "Text t \<notin> set (attIf c m w)"
  by (simp add: attIf_def)

text \<open>
  C6. Every text that serializing a rule writes is the text of its \<open>formula1\<close> or \<open>formula2\<close>
  element, and is the value \<open>cleanFormula\<close> makes of that formula: a numeric formula value is
  emitted as it is; a string whose first character is \<open>=\<close> is emitted as it is; every other
  string (the empty one included) is emitted between two double quotes. A rule with a first
  formula writes the element \<open>formula1\<close> with that text, and one with a second formula as
  well writes the element \<open>formula2\<close> after it; nothing before them is a text. The three
  examples of the specification are the last three conjuncts.
\<close>

theorem cleanFormula_quoting:
  "(\<forall>n. cleanFormula (JNum n) = Inr (JNum n))
   \<and> (\<forall>s. take 1 s = ''='' \<longrightarrow> cleanFormula (JStr s) = Inr (JStr s))
   \<and> (\<forall>s. take 1 s \<noteq> ''='' \<longrightarrow>
          cleanFormula (JStr s) = Inr (JStr ([CHR 0x22] @ s @ [CHR 0x22])))
   \<and> (\<forall>(u :: 'a utils_scheme) this t. Text t \<in> set (fst (addToXMLele u this)) \<longrightarrow>
          (formula1 this \<noteq> JUndefined \<and> cleanFormula (formula1 this) = Inr t)
          \<or> (formula2 this \<noteq> JUndefined \<and> cleanFormula (formula2 this) = Inr t))
   \<and> (\<forall>(u :: 'a utils_scheme) this t1.
          formula1 this \<noteq> JUndefined \<and> cleanFormula (formula1 this) = Inr t1
          \<and> formula2 this = JUndefined \<longrightarrow>
          (\<exists>atts. (\<forall>t. Text t \<notin> set atts)
             \<and> addToXMLele u this = (atts @ [Ele ''formula1'', Text t1, Up], None)))
   \<and> (\<forall>(u :: 'a utils_scheme) this t1 t2.
          formula1 this \<noteq> JUndefined \<and> cleanFormula (formula1 this) = Inr t1
          \<and> formula2 this \<noteq> JUndefined \<and> cleanFormula (formula2 this) = Inr t2 \<longrightarrow>
          (\<exists>atts. (\<forall>t. Text t \<notin> set atts)
             \<and> addToXMLele u this =
                 (atts @ [Ele ''formula1'', Text t1, Up, Ele ''formula2'', Text t2, Up],
                  None)))
   \<and> cleanFormula (JNum (Fin 5)) = Inr (JNum (Fin 5))
   \<and> cleanFormula (JStr ''=SUM(A1:A2)'') = Inr (JStr ''=SUM(A1:A2)'')
   \<and> cleanFormula (JStr ''Option A'') = Inr (JStr (CHR 0x22 # ''Option A'' @ [CHR 0x22]))"
proof (intro conjI allI impI)
  fix u :: "'a utils_scheme" and this :: DataValidation and t
  assume "Text t \<in> set (fst (addToXMLele u this))"
  then show "(formula1 this \<noteq> JUndefined \<and> cleanFormula (formula1 this) = Inr t)
          \<or> (formula2 this \<noteq> JUndefined \<and> cleanFormula (formula2 this) = Inr t)"
    by (auto simp: addToXMLele_def Let_def Text_notin_attIf split: if_splits sum.splits)
next
  fix u :: "'a utils_scheme" and this :: DataValidation and t1
  assume a: "formula1 this \<noteq> JUndefined \<and> cleanFormula (formula1 this) = Inr t1
          \<and> formula2 this = JUndefined"
  show "\<exists>atts. (\<forall>t. Text t \<notin> set atts)
             \<and> addToXMLele u this = (atts @ [Ele ''formula1'', Text t1, Up], None)"
    using a
    by (simp add: addToXMLele_def Let_def Text_notin_attIf;
        (rule exI[where x = "Ele ''dataValidation'' # _"], simp add: Text_notin_attIf))
next
  fix u :: "'a utils_scheme" and this :: DataValidation and t1 t2
  assume a: "formula1 this \<noteq> JUndefined \<and> cleanFormula (formula1 this) = Inr t1
          \<and> formula2 this \<noteq> JUndefined \<and> cleanFormula (formula2 this) = Inr t2"
  show "\<exists>atts. (\<forall>t. Text t \<notin> set atts)
             \<and> addToXMLele u this =
                 (atts @ [Ele ''formula1'', Text t1, Up, Ele ''formula2'', Text t2, Up], None)"
    using a
    by (simp add: addToXMLele_def Let_def Text_notin_attIf;
        (rule exI[where x = "Ele ''dataValidation'' # _"], simp add: Text_notin_attIf))
qed (simp_all add: dquote_def)

text \<open>
  A rule with the formulas \<open>"Option A"\<close> and \<open>5\<close>, and one with \<open>"=SUM(A1:A2)"\<close> alone,
  serialized.
\<close>

theorem cleanFormula_quoting_witness:
  "take 1 ''Option A'' \<noteq> ''=''
   \<and> take 1 ''=SUM(A1:A2)'' = ''=''
   \<and> addToXMLele exampleExternals
        (newDataValidation
           \<lparr>sqref := JStr ''A1'', formula1 := JStr ''Option A'', formula2 := JNum (Fin 5)\<rparr>)
      = ([Ele ''dataValidation'', Att ''sqref'' (JStr ''A1''),
          Ele ''formula1'', Text (JStr (CHR 0x22 # ''Option A'' @ [CHR 0x22])), Up,
          Ele ''formula2'', Text (JNum (Fin 5)), Up], None)
   \<and> addToXMLele exampleExternals
        (newDataValidation\<lparr>sqref := JStr ''A1'', formula1 := JStr ''=SUM(A1:A2)''\<rparr>)
      = ([Ele ''dataValidation'', Att ''sqref'' (JStr ''A1''),
          Ele ''formula1'', Text (JStr ''=SUM(A1:A2)''), Up], None)"
proof -
  let ?both = "newDataValidation
      \<lparr>sqref := JStr ''A1'', formula1 := JStr ''Option A'', formula2 := JNum (Fin 5)\<rparr>"
  let ?one = "newDataValidation\<lparr>sqref := JStr ''A1'', formula1 := JStr ''=SUM(A1:A2)''\<rparr>"
  note main = cleanFormula_quoting
  from main have
    "\<forall>t1 t2. formula1 ?both \<noteq> JUndefined \<and> cleanFormula (formula1 ?both) = Inr t1
          \<and> formula2 ?both \<noteq> JUndefined \<and> cleanFormula (formula2 ?both) = Inr t2 \<longrightarrow>
          (\<exists>atts. (\<forall>t. Text t \<notin> set atts)
             \<and> addToXMLele exampleExternals ?both =
                 (atts @ [Ele ''formula1'', Text t1, Up, Ele ''formula2'', Text t2, Up], None))"
    by blast
  then obtain atts where
    "addToXMLele exampleExternals ?both =
       (atts @ [Ele ''formula1'', Text (JStr (CHR 0x22 # ''Option A'' @ [CHR 0x22])), Up,
                Ele ''formula2'', Text (JNum (Fin 5)), Up], None)"
    by (simp add: newDataValidation_def dquote_def) blast
  moreover have "fst (addToXMLele exampleExternals ?both)
      = [Ele ''dataValidation'', Att ''sqref'' (JStr ''A1'')]
        @ [Ele ''formula1'', Text (JStr (CHR 0x22 # ''Option A'' @ [CHR 0x22])), Up,
           Ele ''formula2'', Text (JNum (Fin 5)), Up]"
    by (simp add: addToXMLele_def Let_def newDataValidation_def attIf_def dquote_def)
  ultimately have "addToXMLele exampleExternals ?both
      = ([Ele ''dataValidation'', Att ''sqref'' (JStr ''A1''),
          Ele ''formula1'', Text (JStr (CHR 0x22 # ''Option A'' @ [CHR 0x22])), Up,
          Ele ''formula2'', Text (JNum (Fin 5)), Up], None)"
    by simp
  moreover have "addToXMLele exampleExternals ?one
      = ([Ele ''dataValidation'', Att ''sqref'' (JStr ''A1''),
          Ele ''formula1'', Text (JStr ''=SUM(A1:A2)''), Up], None)"
    by (simp add: addToXMLele_def Let_def newDataValidation_def attIf_def dquote_def)
  ultimately show ?thesis by simp
qed

subsection \<open>The inverted \<open>showDropDown\<close> attribute\<close>

lemma Att_in_attIf [simp]: "Att n v \<in> set (attIf c m w) \<longleftrightarrow> c \<and> n = m \<and> v = w"
  by (auto simp: attIf_def)

text \<open>
  C7. Serializing a rule writes the attribute \<open>showDropDown\<close> exactly when the rule's field
  \<open>showDropDown\<close> is the boolean \<open>false\<close>, and then with the value \<open>1\<close>; when the field is
  \<open>true\<close> or \<open>undefined\<close> (or anything else) no \<open>showDropDown\<close> attribute is written.
\<close>

theorem showDropDown_inverted:
  "{v. Att ''showDropDown'' v \<in> set (fst (addToXMLele u this))} =
     (if showDropDown this = JBool False then {JNum (Fin 1)} else {})"
proof -
  have "Att ''showDropDown'' v \<in> set (fst (addToXMLele u this)) \<longleftrightarrow>
        showDropDown this = JBool False \<and> v = JNum (Fin 1)" for v
    by (simp add: addToXMLele_def Let_def split: sum.splits)
  then show ?thesis by auto
qed

subsection \<open>Running the blocks of the constructor\<close>

lemma bind_Inl [simp]: "bind (Inl e) f = Inl e"
  by (simp add: bind_def)

lemma bind_Inr [simp]: "bind (Inr s) f = f s"
  by (simp add: bind_def)

lemma foldl_bind_Inl [simp]: "foldl bind (Inl e) bs = Inl e"
  by (induction bs) simp_all

lemma optsOf_simps [simp]:
  "optsOf (Inl e) = Inl e" "optsOf (Inr (opts, this)) = Inr opts"
  by (simp_all add: optsOf_def)

lemma optsOf_eq_Inl: "optsOf r = Inl e \<longleftrightarrow> r = Inl e"
  by (auto simp: optsOf_def split: sum.splits)

lemma optsOf_eq_Inr: "optsOf r = Inr opts \<longleftrightarrow> (\<exists>this. r = Inr (opts, this))"
  by (auto simp: optsOf_def split: sum.splits)

lemma isl_optsOf [simp]: "isl (optsOf r) = isl r"
  by (auto simp: optsOf_def split: sum.splits)

lemma isl_if_Inl: "isl (if c then Inl e else m) = (c \<or> isl m)"
  by simp

lemma run_optsDriven:
  "list_all optsDriven bs \<Longrightarrow>
   optsOf (foldl bind (Inr (opts, this)) bs) = optsOf (foldl bind (Inr (opts, this')) bs)"
proof (induction bs arbitrary: opts this this')
  case Nil
  show ?case by simp
next
  case (Cons b bs)
  from Cons.prems have bs: "list_all optsDriven bs" and "optsDriven b"
    by simp_all
  then have b: "optsOf (b (opts, this)) = optsOf (b (opts, this'))"
    unfolding optsDriven_def by blast
  show ?case
  proof (cases "b (opts, this)")
    case (Inl e)
    with b have "b (opts, this') = Inl e"
      by (simp add: optsOf_eq_Inl[symmetric])
    with Inl show ?thesis by simp
  next
    case (Inr s)
    obtain o1 t1 where s: "s = (o1, t1)" by (cases s)
    with Inr b obtain t1' where "b (opts, this') = Inr (o1, t1')"
      by (metis optsOf_eq_Inr optsOf_simps(2))
    with Inr s Cons.IH[OF bs, of o1 t1 t1'] show ?thesis by simp
  qed
qed

lemma optsDriven_blocks [simp]:
  "optsDriven formulasBlock"
  "optsDriven (boolBlock conv k assign)"
  "optsDriven (enumBlock k enums assign)"
  "optsDriven (textBlock k assign flag assignFlag)"
  by (simp_all add: optsDriven_def formulasBlock_def boolBlock_def enumBlock_def
      textBlock_def Let_def)

lemma run_step:
  assumes "list_all optsDriven bs" and "optsOf (b (opts, this)) = r"
  shows "optsOf (foldl bind (Inr (opts, this)) (b # bs)) =
         (case r of Inl e \<Rightarrow> Inl e | Inr opts' \<Rightarrow> optsOf (foldl bind (Inr (opts', this)) bs))"
proof (cases "b (opts, this)")
  case (Inl e)
  with assms(2) show ?thesis by auto
next
  case (Inr s)
  obtain o1 t1 where s: "s = (o1, t1)" by (cases s)
  with Inr assms(2) have r: "r = Inr o1" by auto
  from Inr s run_optsDriven[OF assms(1), of o1 t1 this] r show ?thesis by simp
qed

lemma run_formulas:
  "list_all optsDriven bs \<Longrightarrow>
   optsOf (foldl bind (Inr (opts, this)) (formulasBlock # bs)) =
   optsOf (foldl bind (Inr (opts, this)) bs)"
  by (subst run_step[where r = "Inr opts"]) (simp_all add: formulasBlock_def)

lemma run_bool:
  "list_all optsDriven bs \<Longrightarrow>
   optsOf (foldl bind (Inr (opts, this)) (boolBlock conv k assign # bs)) =
   (if opts k \<noteq> JUndefined \<and> Number conv (opts k) \<noteq> Fin 1 \<and> Number conv (opts k) \<noteq> Fin 0
    then Inl (TypeError (''DataValidation '' @ k @ '' must be true, false, 1 or 0''))
    else optsOf (foldl bind
           (Inr (opts(k := if opts k = JUndefined then JUndefined
                           else JBool (Number conv (opts k) = Fin 1)), this)) bs))"
proof -
  let ?r = "if opts k \<noteq> JUndefined \<and> Number conv (opts k) \<noteq> Fin 1 \<and> Number conv (opts k) \<noteq> Fin 0
    then Inl (TypeError (''DataValidation '' @ k @ '' must be true, false, 1 or 0''))
    else Inr (opts(k := if opts k = JUndefined then JUndefined
                        else JBool (Number conv (opts k) = Fin 1)))"
  assume bs: "list_all optsDriven bs"
  have r: "optsOf (boolBlock conv k assign (opts, this)) = ?r"
    by (cases "opts k") (auto simp: boolBlock_def Let_def fun_upd_idem_iff)
  from run_step[where b = "boolBlock conv k assign" and r = "?r", OF bs r] show ?thesis
    by (simp split: if_splits)
qed

lemma run_enum:
  "list_all optsDriven bs \<Longrightarrow>
   optsOf (foldl bind (Inr (opts, this)) (enumBlock k enums assign # bs)) =
   (if opts k \<noteq> JUndefined \<and> notInEnum enums (opts k)
    then Inl (TypeError (''DataValidation '' @ k @ '' must be one of '' @ join '', '' enums))
    else optsOf (foldl bind (Inr (opts, this)) bs))"
proof -
  let ?r = "if opts k \<noteq> JUndefined \<and> notInEnum enums (opts k)
    then Inl (TypeError (''DataValidation '' @ k @ '' must be one of '' @ join '', '' enums))
    else Inr opts"
  assume bs: "list_all optsDriven bs"
  have r: "optsOf (enumBlock k enums assign (opts, this)) = ?r"
    by (simp add: enumBlock_def)
  from run_step[where b = "enumBlock k enums assign" and r = "?r", OF bs r] show ?thesis
    by (simp split: if_splits)
qed

lemma run_text:
  "list_all optsDriven bs \<Longrightarrow>
   optsOf (foldl bind (Inr (opts, this)) (textBlock k assign flag assignFlag # bs)) =
   (if opts k \<noteq> JUndefined \<and> typeof (opts k) \<noteq> ''string''
    then Inl (TypeError (''DataValidation '' @ k @ '' must be a string''))
    else optsOf (foldl bind
           (Inr (opts(flag := if opts k = JUndefined then opts flag else JBool True), this)) bs))"
proof -
  let ?r = "if opts k \<noteq> JUndefined \<and> typeof (opts k) \<noteq> ''string''
    then Inl (TypeError (''DataValidation '' @ k @ '' must be a string''))
    else Inr (opts(flag := if opts k = JUndefined then opts flag else JBool True))"
  assume bs: "list_all optsDriven bs"
  have r: "optsOf (textBlock k assign flag assignFlag (opts, this)) = ?r"
    by (auto simp: textBlock_def)
  from run_step[where b = "textBlock k assign flag assignFlag" and r = "?r", OF bs r]
  show ?thesis
    by (simp split: if_splits)
qed

lemma run_preserves:
  "list_all (preserves I) bs \<Longrightarrow> I s \<Longrightarrow> foldl bind (Inr s) bs = Inr s' \<Longrightarrow> I s'"
proof (induction bs arbitrary: s)
  case Nil
  then show ?case by simp
next
  case (Cons b bs)
  from Cons.prems(1) have b: "preserves I b" and bs: "list_all (preserves I) bs"
    by simp_all
  show ?case
  proof (cases "b s")
    case (Inl e)
    with Cons.prems(3) show ?thesis by simp
  next
    case (Inr s1)
    with b Cons.prems(2) have "I s1" unfolding preserves_def by blast
    with Cons.IH[OF bs, of s1] Cons.prems(3) Inr show ?thesis by simp
  qed
qed

text \<open>
  If every block keeps \<open>K\<close> and \<open>J\<close>, and block number \<open>n\<close> establishes \<open>J\<close> from \<open>K\<close>, then a
  run that starts in \<open>K\<close> and returns ends in \<open>J\<close>.
\<close>

lemma run_forces:
  assumes run: "foldl bind (Inr s) bs = Inr s'"
    and n: "n < length bs"
    and before: "list_all (preserves K) bs" "K s"
    and sets: "\<And>s1 s2. K s1 \<Longrightarrow> (bs ! n) s1 = Inr s2 \<Longrightarrow> J s2"
    and after: "list_all (preserves J) bs"
  shows "J s'"
proof -
  have split: "bs = take n bs @ bs ! n # drop (Suc n) bs"
    using n by (rule id_take_nth_drop)
  have pre: "list_all (preserves K) (take n bs)"
    using before(1) by (auto simp: list_all_iff dest: in_set_takeD)
  have post: "list_all (preserves J) (drop (Suc n) bs)"
    using after by (auto simp: list_all_iff dest: in_set_dropD)
  from run split
  have run': "foldl bind (foldl bind (Inr s) (take n bs)) (bs ! n # drop (Suc n) bs) = Inr s'"
    by (metis foldl_append)
  show ?thesis
  proof (cases "foldl bind (Inr s) (take n bs)")
    case (Inl e)
    with run' show ?thesis by simp
  next
    case (Inr s1)
    with pre before(2) have k: "K s1" by (blast intro: run_preserves)
    show ?thesis
    proof (cases "(bs ! n) s1")
      case (Inl e)
      with run' Inr show ?thesis by simp
    next
      case b: (Inr s2)
      with run' Inr have "foldl bind (Inr s2) (drop (Suc n) bs) = Inr s'" by simp
      with post sets[OF k b] show ?thesis by (blast intro: run_preserves)
    qed
  qed
qed

text \<open>No block assigns to a property of \<open>opts\<close> other than the four boolean-coercible ones.\<close>

lemma blocks_keep:
  "k \<notin> {''allowBlank'', ''showDropDown'', ''showErrorMessage'', ''showInputMessage''} \<Longrightarrow>
   list_all (preserves (\<lambda>(opts', this). opts' k = v)) (blocks conv)"
  by (auto simp: blocks_def preserves_def formulasBlock_def boolBlock_def enumBlock_def
      textBlock_def Let_def split: if_splits)

lemma blocks_keep_error_flag:
  "list_all (preserves (\<lambda>(opts', this).
      opts' ''showErrorMessage'' = JBool True \<and> showErrorMessage this = JBool True)) (blocks conv)"
  by (auto simp: blocks_def preserves_def formulasBlock_def assignFormulas_def boolBlock_def
      enumBlock_def textBlock_def Let_def split: if_splits jsval.splits)

lemma blocks_keep_input_flag:
  "list_all (preserves (\<lambda>(opts', this).
      opts' ''showInputMessage'' = JBool True \<and> showInputMessage this = JBool True)) (blocks conv)"
  by (auto simp: blocks_def preserves_def formulasBlock_def assignFormulas_def boolBlock_def
      enumBlock_def textBlock_def Let_def split: if_splits jsval.splits)

lemma forced_flags:
  assumes "DataValidation_constructor conv opts = Inr (opts', this)"
  shows "(opts ''error'' \<noteq> JUndefined \<or> opts ''errorTitle'' \<noteq> JUndefined \<longrightarrow>
            opts' ''showErrorMessage'' = JBool True \<and> showErrorMessage this = JBool True)
       \<and> (opts ''prompt'' \<noteq> JUndefined \<or> opts ''promptTitle'' \<noteq> JUndefined \<longrightarrow>
            opts' ''showInputMessage'' = JBool True \<and> showInputMessage this = JBool True)"
proof -
  let ?s = "(opts, newDataValidation\<lparr>sqref := opts ''sqref''\<rparr>)"
  let ?JE = "\<lambda>(o', t). o' ''showErrorMessage'' = JBool True \<and> showErrorMessage t = JBool True"
  let ?JI = "\<lambda>(o', t). o' ''showInputMessage'' = JBool True \<and> showInputMessage t = JBool True"
  from assms have run: "foldl bind (Inr ?s) (blocks conv) = Inr (opts', this)"
    by (auto simp: DataValidation_constructor_def split: if_splits)
  have forced: "J (opts', this)"
    if "n < 13"
      and "k \<notin> {''allowBlank'', ''showDropDown'', ''showErrorMessage'', ''showInputMessage''}"
      and "\<And>s1 s2. (case s1 of (o', t) \<Rightarrow> o' k = opts k) \<Longrightarrow>
             (blocks conv ! n) s1 = Inr s2 \<Longrightarrow> J s2"
      and "list_all (preserves J) (blocks conv)" for n k J
    using run
  proof (rule run_forces[where K = "\<lambda>(o', t). o' k = opts k"])
    show "n < length (blocks conv)" using that(1) by (simp add: blocks_def)
    show "list_all (preserves (\<lambda>(o', t). o' k = opts k)) (blocks conv)"
      using that(2) by (rule blocks_keep)
    show "case ?s of (o', t) \<Rightarrow> o' k = opts k" by simp
  qed (use that in auto)
  have e1: "?JE (opts', this)" if "opts ''error'' \<noteq> JUndefined"
  proof (rule forced[of 3 "''error''"])
    show "?JE s2" if "case s1 of (o', t) \<Rightarrow> o' ''error'' = opts ''error''"
      and "(blocks conv ! 3) s1 = Inr s2" for s1 s2
      using that \<open>opts ''error'' \<noteq> JUndefined\<close>
      by (auto simp: blocks_def textBlock_def split: if_splits)
  qed (simp_all add: blocks_keep_error_flag)
  have e2: "?JE (opts', this)" if "opts ''errorTitle'' \<noteq> JUndefined"
  proof (rule forced[of 4 "''errorTitle''"])
    show "?JE s2" if "case s1 of (o', t) \<Rightarrow> o' ''errorTitle'' = opts ''errorTitle''"
      and "(blocks conv ! 4) s1 = Inr s2" for s1 s2
      using that \<open>opts ''errorTitle'' \<noteq> JUndefined\<close>
      by (auto simp: blocks_def textBlock_def split: if_splits)
  qed (simp_all add: blocks_keep_error_flag)
  have i1: "?JI (opts', this)" if "opts ''prompt'' \<noteq> JUndefined"
  proof (rule forced[of 7 "''prompt''"])
    show "?JI s2" if "case s1 of (o', t) \<Rightarrow> o' ''prompt'' = opts ''prompt''"
      and "(blocks conv ! 7) s1 = Inr s2" for s1 s2
      using that \<open>opts ''prompt'' \<noteq> JUndefined\<close>
      by (auto simp: blocks_def textBlock_def split: if_splits)
  qed (simp_all add: blocks_keep_input_flag)
  have i2: "?JI (opts', this)" if "opts ''promptTitle'' \<noteq> JUndefined"
  proof (rule forced[of 8 "''promptTitle''"])
    show "?JI s2" if "case s1 of (o', t) \<Rightarrow> o' ''promptTitle'' = opts ''promptTitle''"
      and "(blocks conv ! 8) s1 = Inr s2" for s1 s2
      using that \<open>opts ''promptTitle'' \<noteq> JUndefined\<close>
      by (auto simp: blocks_def textBlock_def split: if_splits)
  qed (simp_all add: blocks_keep_input_flag)
  from e1 e2 i1 i2 show ?thesis by auto
qed

text \<open>Evaluating the constructor on an option bag written as a literal.\<close>

lemmas ctor_eval =
  DataValidation_constructor_def blocks_def object_def formulasBlock_def assignFormulas_def
  boolBlock_def enumBlock_def textBlock_def notInEnum_def newDataValidation_def
  errorStyles_def imeModes_def operators_def types_def

subsection \<open>When the constructor throws\<close>

text \<open>
  C4, as the code has it. The constructor throws exactly when \<open>sqref\<close> is \<open>undefined\<close>; or
  an enumerated field is present and not a string of its list; or a text field is present
  and not a string; or a boolean-coercible field is present, has not been overwritten by
  the constructor, and \<open>Number\<close> of it is neither \<open>1\<close> nor \<open>0\<close>. \<open>showErrorMessage\<close> has been
  overwritten with \<open>true\<close> when \<open>error\<close> or \<open>errorTitle\<close> is present, \<open>showInputMessage\<close> when
  \<open>prompt\<close> or \<open>promptTitle\<close> is. With \<open>allowBlank: 2\<close> the constructor throws; with
  \<open>allowBlank: 1\<close> it returns and the field is the boolean \<open>true\<close>.
\<close>

theorem DataValidation_constructor_throws_iff:
  "(isl (DataValidation_constructor conv opts) \<longleftrightarrow>
     opts ''sqref'' = JUndefined
   \<or> (opts ''allowBlank'' \<noteq> JUndefined \<and> Number conv (opts ''allowBlank'') \<notin> {Fin 1, Fin 0})
   \<or> (opts ''errorStyle'' \<noteq> JUndefined \<and> notInEnum errorStyles (opts ''errorStyle''))
   \<or> (opts ''error'' \<noteq> JUndefined \<and> typeof (opts ''error'') \<noteq> ''string'')
   \<or> (opts ''errorTitle'' \<noteq> JUndefined \<and> typeof (opts ''errorTitle'') \<noteq> ''string'')
   \<or> (opts ''imeMode'' \<noteq> JUndefined \<and> notInEnum imeModes (opts ''imeMode''))
   \<or> (opts ''operator'' \<noteq> JUndefined \<and> notInEnum operators (opts ''operator''))
   \<or> (opts ''prompt'' \<noteq> JUndefined \<and> typeof (opts ''prompt'') \<noteq> ''string'')
   \<or> (opts ''promptTitle'' \<noteq> JUndefined \<and> typeof (opts ''promptTitle'') \<noteq> ''string'')
   \<or> (opts ''showDropDown'' \<noteq> JUndefined \<and>
       Number conv (opts ''showDropDown'') \<notin> {Fin 1, Fin 0})
   \<or> (opts ''error'' = JUndefined \<and> opts ''errorTitle'' = JUndefined \<and>
       opts ''showErrorMessage'' \<noteq> JUndefined \<and>
       Number conv (opts ''showErrorMessage'') \<notin> {Fin 1, Fin 0})
   \<or> (opts ''prompt'' = JUndefined \<and> opts ''promptTitle'' = JUndefined \<and>
       opts ''showInputMessage'' \<noteq> JUndefined \<and>
       Number conv (opts ''showInputMessage'') \<notin> {Fin 1, Fin 0})
   \<or> (opts ''type'' \<noteq> JUndefined \<and> notInEnum types (opts ''type'')))
   \<and> isl (DataValidation_constructor conv
        (object [(''sqref'', JStr ''A1''), (''allowBlank'', JNum (Fin 2))]))
   \<and> (\<exists>opts' this. DataValidation_constructor conv
        (object [(''sqref'', JStr ''A1''), (''allowBlank'', JNum (Fin 1))]) = Inr (opts', this)
        \<and> allowBlank this = JBool True)"
proof (intro conjI)
  show "isl (DataValidation_constructor conv opts) \<longleftrightarrow>
     opts ''sqref'' = JUndefined
   \<or> (opts ''allowBlank'' \<noteq> JUndefined \<and> Number conv (opts ''allowBlank'') \<notin> {Fin 1, Fin 0})
   \<or> (opts ''errorStyle'' \<noteq> JUndefined \<and> notInEnum errorStyles (opts ''errorStyle''))
   \<or> (opts ''error'' \<noteq> JUndefined \<and> typeof (opts ''error'') \<noteq> ''string'')
   \<or> (opts ''errorTitle'' \<noteq> JUndefined \<and> typeof (opts ''errorTitle'') \<noteq> ''string'')
   \<or> (opts ''imeMode'' \<noteq> JUndefined \<and> notInEnum imeModes (opts ''imeMode''))
   \<or> (opts ''operator'' \<noteq> JUndefined \<and> notInEnum operators (opts ''operator''))
   \<or> (opts ''prompt'' \<noteq> JUndefined \<and> typeof (opts ''prompt'') \<noteq> ''string'')
   \<or> (opts ''promptTitle'' \<noteq> JUndefined \<and> typeof (opts ''promptTitle'') \<noteq> ''string'')
   \<or> (opts ''showDropDown'' \<noteq> JUndefined \<and>
       Number conv (opts ''showDropDown'') \<notin> {Fin 1, Fin 0})
   \<or> (opts ''error'' = JUndefined \<and> opts ''errorTitle'' = JUndefined \<and>
       opts ''showErrorMessage'' \<noteq> JUndefined \<and>
       Number conv (opts ''showErrorMessage'') \<notin> {Fin 1, Fin 0})
   \<or> (opts ''prompt'' = JUndefined \<and> opts ''promptTitle'' = JUndefined \<and>
       opts ''showInputMessage'' \<noteq> JUndefined \<and>
       Number conv (opts ''showInputMessage'') \<notin> {Fin 1, Fin 0})
   \<or> (opts ''type'' \<noteq> JUndefined \<and> notInEnum types (opts ''type''))"
    apply (subst isl_optsOf[symmetric])
    unfolding DataValidation_constructor_def blocks_def
    apply (cases "opts ''sqref'' = JUndefined")
     apply simp
    apply (simp add: run_formulas run_bool run_enum run_text isl_if_Inl
        del: isl_optsOf foldl_Cons)
    done
  show "isl (DataValidation_constructor conv
        (object [(''sqref'', JStr ''A1''), (''allowBlank'', JNum (Fin 2))]))"
    by (simp add: ctor_eval)
  show "\<exists>opts' this. DataValidation_constructor conv
        (object [(''sqref'', JStr ''A1''), (''allowBlank'', JNum (Fin 1))]) = Inr (opts', this)
        \<and> allowBlank this = JBool True"
    by (simp add: ctor_eval)
qed

text \<open>
  The claim as the specification states it has every boolean-coercible field that holds
  something other than \<open>true\<close>, \<open>false\<close>, \<open>1\<close> or \<open>0\<close> rejected. The code accepts
  \<open>{sqref: 'A1', error: 'Bad input', showErrorMessage: 2}\<close>, where \<open>showErrorMessage\<close> has
  been overwritten before it is checked, and \<open>{sqref: 'A1', allowBlank: null}\<close>, where
  \<open>Number(null)\<close> is \<open>0\<close>.
\<close>

theorem DataValidation_rejects_counterexample:
  "\<not> isl (DataValidation_constructor notConsulted
        (object [(''sqref'', JStr ''A1''), (''error'', JStr ''Bad input''),
                 (''showErrorMessage'', JNum (Fin 2))]))
   \<and> \<not> isl (DataValidation_constructor notConsulted
        (object [(''sqref'', JStr ''A1''), (''allowBlank'', JNull)]))"
  by (simp add: ctor_eval)

theorem DataValidation_constructor_throws_iff_witness:
  "isl (DataValidation_constructor notConsulted
        (object [(''sqref'', JStr ''A1''), (''type'', JStr ''bogus'')]))
   \<and> isl (DataValidation_constructor notConsulted (object [(''type'', JStr ''list'')]))
   \<and> \<not> isl (DataValidation_constructor notConsulted
        (object [(''sqref'', JStr ''A1''), (''type'', JStr ''list''),
                 (''showDropDown'', JBool True)]))"
proof -
  note iff = DataValidation_constructor_throws_iff[THEN conjunct1]
  show ?thesis
    by (simp add: iff object_def notInEnum_def types_def)
qed

subsection \<open>The message flags\<close>

text \<open>
  C5. Whenever the constructor accepts an options object: if \<open>error\<close> or \<open>errorTitle\<close> is
  present, the rule's \<open>showErrorMessage\<close> is \<open>true\<close>; if \<open>prompt\<close> or \<open>promptTitle\<close> is
  present, the rule's \<open>showInputMessage\<close> is \<open>true\<close>. Nothing is assumed of the caller's own
  \<open>showErrorMessage\<close> and \<open>showInputMessage\<close>.
\<close>

theorem message_flags_forced:
  assumes "DataValidation_constructor conv opts = Inr (opts', this)"
  shows "(opts ''error'' \<noteq> JUndefined \<or> opts ''errorTitle'' \<noteq> JUndefined \<longrightarrow>
            showErrorMessage this = JBool True)
       \<and> (opts ''prompt'' \<noteq> JUndefined \<or> opts ''promptTitle'' \<noteq> JUndefined \<longrightarrow>
            showInputMessage this = JBool True)"
  using forced_flags[OF assms] by blast

theorem message_flags_forced_witness:
  "\<exists>opts' this.
     DataValidation_constructor notConsulted
       (object [(''sqref'', JStr ''A1''), (''error'', JStr ''Bad input''),
                (''showErrorMessage'', JBool False), (''promptTitle'', JStr ''Pick one'')])
       = Inr (opts', this)
     \<and> showErrorMessage this = JBool True \<and> showInputMessage this = JBool True"
proof -
  let ?opts = "object [(''sqref'', JStr ''A1''), (''error'', JStr ''Bad input''),
                (''showErrorMessage'', JBool False), (''promptTitle'', JStr ''Pick one'')]"
  have "\<not> isl (DataValidation_constructor notConsulted ?opts)"
    by (simp add: ctor_eval)
  then obtain opts' this
    where ok: "DataValidation_constructor notConsulted ?opts = Inr (opts', this)"
    by (cases "DataValidation_constructor notConsulted ?opts") auto
  have "?opts ''error'' \<noteq> JUndefined" and "?opts ''promptTitle'' \<noteq> JUndefined"
    by (simp_all add: object_def)
  with message_flags_forced[OF ok] ok show ?thesis by blast
qed

subsection \<open>The caller's options object\<close>

text \<open>
  C10. The constructor writes into the object it is given: whenever it accepts an options
  object with \<open>error\<close> or \<open>errorTitle\<close> present, the caller's \<open>opts.showErrorMessage\<close> is
  \<open>true\<close> afterwards, and with \<open>prompt\<close> or \<open>promptTitle\<close> present the caller's
  \<open>opts.showInputMessage\<close> is \<open>true\<close> afterwards, whatever the caller had put there (\<open>false\<close>
  included).
\<close>

theorem caller_opts_overwritten:
  assumes "DataValidation_constructor conv opts = Inr (opts', this)"
  shows "(opts ''error'' \<noteq> JUndefined \<or> opts ''errorTitle'' \<noteq> JUndefined \<longrightarrow>
            opts' ''showErrorMessage'' = JBool True)
       \<and> (opts ''prompt'' \<noteq> JUndefined \<or> opts ''promptTitle'' \<noteq> JUndefined \<longrightarrow>
            opts' ''showInputMessage'' = JBool True)"
  using forced_flags[OF assms] by blast

theorem caller_opts_overwritten_witness:
  "\<exists>opts' this.
     DataValidation_constructor notConsulted
       (object [(''sqref'', JStr ''A1''), (''errorTitle'', JStr ''Oops''),
                (''showErrorMessage'', JBool False), (''prompt'', JStr ''Pick one''),
                (''showInputMessage'', JBool False)])
       = Inr (opts', this)
     \<and> object [(''sqref'', JStr ''A1''), (''errorTitle'', JStr ''Oops''),
                (''showErrorMessage'', JBool False), (''prompt'', JStr ''Pick one''),
                (''showInputMessage'', JBool False)] ''showErrorMessage'' = JBool False
     \<and> opts' ''showErrorMessage'' = JBool True \<and> opts' ''showInputMessage'' = JBool True"
proof -
  let ?opts = "object [(''sqref'', JStr ''A1''), (''errorTitle'', JStr ''Oops''),
                (''showErrorMessage'', JBool False), (''prompt'', JStr ''Pick one''),
                (''showInputMessage'', JBool False)]"
  have "\<not> isl (DataValidation_constructor notConsulted ?opts)"
    by (simp add: ctor_eval)
  then obtain opts' this
    where ok: "DataValidation_constructor notConsulted ?opts = Inr (opts', this)"
    by (cases "DataValidation_constructor notConsulted ?opts") auto
  have "?opts ''errorTitle'' \<noteq> JUndefined" and "?opts ''prompt'' \<noteq> JUndefined"
    and "?opts ''showErrorMessage'' = JBool False"
    by (simp_all add: object_def)
  with caller_opts_overwritten[OF ok] ok show ?thesis by blast
qed


section \<open>Properties of the workbook\<close>

lemma list_all2_map_eq:
  "list_all2 (\<lambda>x y. f x = f y) xs ys \<Longrightarrow> map f xs = map f ys"
  by (induction rule: list_all2_induct) simp_all

lemma sort_key_permuted:
  assumes "mset xs = mset ys" and "distinct (map f xs)"
  shows "sort_key f xs = sort_key f ys"
proof (rule sort_key_inj_key_eq)
  show "mset xs = mset (sort_key f ys)" using assms(1) by simp
  show "inj_on f (set xs)" using assms(2) by (simp add: distinct_map)
  show "sorted (map f (sort_key f ys))" by simp
qed

lemma canonical_reordered:
  "reordered a b \<Longrightarrow> distinctFields a \<Longrightarrow> canonical a = canonical b"
proof (induction rule: reordered.induct)
  case (same v)
  show ?case by simp
next
  case (fields fs hs gs)
  let ?c = "\<lambda>(k, v). (k, canonical v)"
  from fields.prems have d: "distinct (map fst fs)"
    and each: "list_all (\<lambda>(k, v). distinctFields v) fs"
    by simp_all
  from fields.IH each have "list_all2 (\<lambda>f g. ?c f = ?c g) fs hs"
    by (induction rule: list_all2_induct) (auto split: prod.splits)
  then have eq: "map ?c fs = map ?c hs"
    by (rule list_all2_map_eq)
  have fst_c: "map fst (map ?c xs) = map fst xs" for xs :: "(string \<times> jsval) list"
    by (induction xs) (auto split: prod.splits)
  from d have "distinct (map fst (map ?c fs))"
    by (simp only: fst_c)
  moreover from fields.hyps have "mset (map ?c hs) = mset (map ?c gs)"
    by (metis mset_map)
  ultimately have "sort_key fst (map ?c fs) = sort_key fst (map ?c gs)"
    using eq sort_key_permuted[of "map ?c fs" "map ?c gs" fst] by simp
  then show ?case by simp
next
  case (elements xs ys)
  from elements.prems have "list_all distinctFields xs" by simp
  with elements.IH have "list_all2 (\<lambda>x y. canonical x = canonical y) xs ys"
    by (induction rule: list_all2_induct) auto
  then have "map canonical xs = map canonical ys"
    by (rule list_all2_map_eq)
  then show ?case by simp
qed

lemma indexOf_neg_iff: "indexOf xs v < 0 \<longleftrightarrow> v \<notin> set xs"
  by (induction xs) (auto simp: Let_def)

lemma indexOf_nonneg: "v \<in> set xs \<Longrightarrow> 0 \<le> indexOf xs v"
  using indexOf_neg_iff[of xs v] by simp

lemma indexOf_append_old: "v \<in> set xs \<Longrightarrow> indexOf (xs @ ys) v = indexOf xs v"
  by (induction xs) (auto simp: Let_def indexOf_neg_iff)

lemma indexOf_append_new: "v \<notin> set xs \<Longrightarrow> indexOf (xs @ [v]) v = int (length xs)"
  by (induction xs) (auto simp: Let_def)

lemma indexOf_less: "v \<in> set xs \<Longrightarrow> indexOf xs v < int (length xs)"
  by (induction xs) (auto simp: Let_def indexOf_neg_iff)

lemma getStringIndex_known:
  "val \<in> set (sharedStrings book) \<Longrightarrow>
   getStringIndex book val = (indexOf (sharedStrings book) val, book)"
  by (simp add: getStringIndex_def indexOf_neg_iff)

lemma getStringIndex_new:
  "val \<notin> set (sharedStrings book) \<Longrightarrow>
   getStringIndex book val =
     (int (length (sharedStrings book)), book\<lparr>sharedStrings := sharedStrings book @ [val]\<rparr>)"
  by (simp add: getStringIndex_def indexOf_neg_iff indexOf_append_new)

lemma createStyle_known:
  "stylesLookup book (stringify (canonical opts)) = Some found \<Longrightarrow>
   createStyle stringify book opts = (found, book)"
  by (simp add: createStyle_def newStyle_def)

lemma createStyle_new:
  "stylesLookup book (stringify (canonical opts)) = None \<Longrightarrow>
   createStyle stringify book opts =
     (\<lparr>toObject = canonical opts, cellXfs = Some (length (styles book))\<rparr>,
      book\<lparr>stylesLookup := (stylesLookup book)(stringify (canonical opts) \<mapsto>
             \<lparr>toObject = canonical opts, cellXfs = Some (length (styles book))\<rparr>),
         styles := styles book @ [\<lparr>toObject = canonical opts, cellXfs = Some (length (styles book))\<rparr>]\<rparr>)"
  by (simp add: createStyle_def newStyle_def Let_def)

lemma createStyle_registers:
  "stylesLookup (snd (createStyle stringify book opts)) (stringify (canonical opts)) =
     Some (fst (createStyle stringify book opts))"
  by (cases "stylesLookup book (stringify (canonical opts))")
     (simp_all add: createStyle_known createStyle_new)

lemma interned_createStyle:
  assumes "interned stringify book"
  shows "interned stringify (snd (createStyle stringify book opts))"
proof (cases "stylesLookup book (stringify (canonical opts))")
  case (Some found)
  with assms show ?thesis by (simp add: createStyle_known)
next
  case None
  let ?reg = "\<lparr>toObject = canonical opts, cellXfs = Some (length (styles book))\<rparr>"
  let ?key = "stringify (canonical opts)"
  from assms have pos: "\<And>i. i < length (styles book) \<Longrightarrow> cellXfs (styles book ! i) = Some i"
    and look: "\<And>k st. stylesLookup book k = Some st \<Longrightarrow>
                 st \<in> set (styles book) \<and> stringify (toObject st) = k"
    and reg: "\<And>st. st \<in> set (styles book) \<Longrightarrow> stylesLookup book (stringify (toObject st)) = Some st"
    unfolding interned_def by blast+
  have other: "stringify (toObject st) \<noteq> ?key" if "st \<in> set (styles book)" for st
    using reg[OF that] None by auto
  have "\<forall>i < length (styles book @ [?reg]). cellXfs ((styles book @ [?reg]) ! i) = Some i"
    using pos by (auto simp: nth_append less_Suc_eq)
  moreover have "\<forall>k st. ((stylesLookup book)(?key \<mapsto> ?reg)) k = Some st \<longrightarrow>
      st \<in> set (styles book @ [?reg]) \<and> stringify (toObject st) = k"
    using look by (auto split: if_splits)
  moreover have "\<forall>st \<in> set (styles book @ [?reg]).
      ((stylesLookup book)(?key \<mapsto> ?reg)) (stringify (toObject st)) = Some st"
    using reg other by auto
  ultimately show ?thesis
    unfolding interned_def
      createStyle_new[where stringify = stringify and book = book and opts = opts, OF None]
    by simp
qed

lemma interned_getStringIndex:
  "interned stringify book \<Longrightarrow> interned stringify (snd (getStringIndex book val))"
  by (simp add: getStringIndex_def interned_def Let_def)

lemma interned_perform:
  "interned stringify book \<Longrightarrow> interned stringify (perform stringify book c)"
  by (cases c) (simp_all add: interned_createStyle interned_getStringIndex)

lemma interned_calls:
  "interned stringify book \<Longrightarrow> interned stringify (foldl (perform stringify) book calls)"
  by (induction calls arbitrary: book) (simp_all add: interned_perform)

lemma grownFrom_refl: "grownFrom book book"
  by (simp add: grownFrom_def)

lemma grownFrom_trans: "grownFrom a b \<Longrightarrow> grownFrom b c \<Longrightarrow> grownFrom a c"
  unfolding grownFrom_def by (metis append.assoc)

lemma grownFrom_createStyle: "grownFrom book (snd (createStyle stringify book opts))"
  by (cases "stylesLookup book (stringify (canonical opts))")
     (auto simp: createStyle_known createStyle_new grownFrom_def)

lemma grownFrom_getStringIndex: "grownFrom book (snd (getStringIndex book val))"
  by (auto simp: getStringIndex_def grownFrom_def Let_def)

lemma grownFrom_perform: "grownFrom book (perform stringify book c)"
  by (cases c) (simp_all add: grownFrom_createStyle grownFrom_getStringIndex)

lemma grownFrom_calls: "grownFrom book (foldl (perform stringify) book calls)"
proof (induction calls arbitrary: book)
  case Nil
  show ?case by (simp add: grownFrom_refl)
next
  case (Cons c calls)
  from grownFrom_perform[of book stringify c] Cons[of "perform stringify book c"]
  show ?case by (auto intro: grownFrom_trans)
qed

text \<open>
  C2, as the code has it. Interning is idempotent and append-only. In a workbook that
  interning has produced: two calls of \<open>createStyle\<close> whose values have one lookup key return
  the same style, with its index, whatever interning calls lie between them, and the second
  call adds nothing; option values that differ only in the order of their fields, at any
  depth, have one lookup key; two calls of \<open>getStringIndex\<close> with one string return the same
  index; a value whose lookup key no registered style has is appended and gets the index
  after all the indices in use, and so does a string that is not in the table; no later
  call moves or removes an entry of either table. The lookup key is the text that
  \<open>JSON.stringify\<close> writes for the serialized style, so a value is new when that text is new,
  not whenever the value is structurally distinct.
\<close>

theorem interning_idempotent_append_only:
  assumes "interned stringify book"
  shows
   "(\<forall>a b calls. stringify (canonical a) = stringify (canonical b) \<longrightarrow>
       createStyle stringify
         (foldl (perform stringify) (snd (createStyle stringify book a)) calls) b
       = (fst (createStyle stringify book a),
          foldl (perform stringify) (snd (createStyle stringify book a)) calls))
    \<and> (\<forall>a b. reordered a b \<and> distinctFields a \<longrightarrow>
          stringify (canonical a) = stringify (canonical b))
    \<and> (\<forall>val calls.
          getStringIndex (foldl (perform stringify) (snd (getStringIndex book val)) calls) val
          = (fst (getStringIndex book val),
             foldl (perform stringify) (snd (getStringIndex book val)) calls))
    \<and> (\<forall>a. (\<forall>st \<in> set (styles book). stringify (toObject st) \<noteq> stringify (canonical a)) \<longrightarrow>
          (\<exists>st book'. createStyle stringify book a = (st, book')
             \<and> cellXfs st = Some (length (styles book))
             \<and> styles book' = styles book @ [st]
             \<and> (\<forall>old \<in> set (styles book). \<exists>i < length (styles book). cellXfs old = Some i)))
    \<and> (\<forall>val. val \<notin> set (sharedStrings book) \<longrightarrow>
          getStringIndex book val =
            (int (length (sharedStrings book)),
             book\<lparr>sharedStrings := sharedStrings book @ [val]\<rparr>)
          \<and> (\<forall>old \<in> set (sharedStrings book).
                fst (getStringIndex book old) < int (length (sharedStrings book))))
    \<and> (\<forall>calls.
          take (length (styles book)) (styles (foldl (perform stringify) book calls)) = styles book
          \<and> take (length (sharedStrings book)) (sharedStrings (foldl (perform stringify) book calls))
              = sharedStrings book
          \<and> interned stringify (foldl (perform stringify) book calls))"
proof (intro conjI allI impI)
  fix a b calls
  assume key: "stringify (canonical a) = stringify (canonical b)"
  let ?book1 = "snd (createStyle stringify book a)"
  let ?book2 = "foldl (perform stringify) ?book1 calls"
  have "stylesLookup ?book1 (stringify (canonical a)) = Some (fst (createStyle stringify book a))"
    by (rule createStyle_registers)
  with grownFrom_calls[of ?book1 stringify calls]
  have "stylesLookup ?book2 (stringify (canonical b)) = Some (fst (createStyle stringify book a))"
    unfolding grownFrom_def key by blast
  then show "createStyle stringify ?book2 b = (fst (createStyle stringify book a), ?book2)"
    by (rule createStyle_known)
next
  fix a b
  assume "reordered a b \<and> distinctFields a"
  then have "canonical a = canonical b"
    by (blast intro: canonical_reordered)
  then show "stringify (canonical a) = stringify (canonical b)"
    by simp
next
  fix val calls
  let ?book1 = "snd (getStringIndex book val)"
  let ?book2 = "foldl (perform stringify) ?book1 calls"
  have in1: "val \<in> set (sharedStrings ?book1)"
    and fst1: "fst (getStringIndex book val) = indexOf (sharedStrings ?book1) val"
    by (simp_all add: getStringIndex_def Let_def indexOf_neg_iff)
  from grownFrom_calls[of ?book1 stringify calls]
  obtain ys where ys: "sharedStrings ?book2 = sharedStrings ?book1 @ ys"
    unfolding grownFrom_def by blast
  with in1 have "val \<in> set (sharedStrings ?book2)" by simp
  then have "getStringIndex ?book2 val = (indexOf (sharedStrings ?book2) val, ?book2)"
    by (rule getStringIndex_known)
  with ys in1 fst1 show "getStringIndex ?book2 val = (fst (getStringIndex book val), ?book2)"
    by (simp add: indexOf_append_old)
next
  fix a
  assume fresh: "\<forall>st \<in> set (styles book). stringify (toObject st) \<noteq> stringify (canonical a)"
  from assms have look: "\<And>k st. stylesLookup book k = Some st \<Longrightarrow>
                 st \<in> set (styles book) \<and> stringify (toObject st) = k"
    and pos: "\<And>i. i < length (styles book) \<Longrightarrow> cellXfs (styles book ! i) = Some i"
    unfolding interned_def by blast+
  from fresh look have none: "stylesLookup book (stringify (canonical a)) = None"
    by (cases "stylesLookup book (stringify (canonical a))") auto
  have olds: "\<forall>old \<in> set (styles book). \<exists>i < length (styles book). cellXfs old = Some i"
    using pos by (auto simp: in_set_conv_nth)
  from createStyle_new[where stringify = stringify and book = book and opts = a, OF none] olds
  show "\<exists>st book'. createStyle stringify book a = (st, book')
             \<and> cellXfs st = Some (length (styles book))
             \<and> styles book' = styles book @ [st]
             \<and> (\<forall>old \<in> set (styles book). \<exists>i < length (styles book). cellXfs old = Some i)"
    by simp
next
  fix val
  assume "val \<notin> set (sharedStrings book)"
  then show "getStringIndex book val =
            (int (length (sharedStrings book)),
             book\<lparr>sharedStrings := sharedStrings book @ [val]\<rparr>)"
    by (rule getStringIndex_new)
next
  fix val
  show "\<forall>old \<in> set (sharedStrings book).
          fst (getStringIndex book old) < int (length (sharedStrings book))"
    by (simp add: getStringIndex_known indexOf_less)
next
  fix calls
  from grownFrom_calls[of book stringify calls]
  show "take (length (styles book)) (styles (foldl (perform stringify) book calls)) = styles book"
    and "take (length (sharedStrings book)) (sharedStrings (foldl (perform stringify) book calls))
              = sharedStrings book"
    unfolding grownFrom_def by auto
  from assms show "interned stringify (foldl (perform stringify) book calls)"
    by (rule interned_calls)
qed

lemma interned_empty: "interned stringify emptyWorkbook"
  by (simp add: interned_def emptyWorkbook_def)

theorem interning_idempotent_append_only_witness:
  "\<forall>stringify.
     fst (createStyle stringify
            (foldl (perform stringify)
               (snd (createStyle stringify emptyWorkbook
                  (JObject [(''font'', JObject [(''bold'', JBool True), (''size'', JNum (Fin 12))]),
                            (''numberFormat'', JStr ''0.00'')])))
               [GetStringIndex ''Hello'', CreateStyle (JObject [(''font'', JNull)])])
            (JObject [(''numberFormat'', JStr ''0.00''),
                      (''font'', JObject [(''size'', JNum (Fin 12)), (''bold'', JBool True)])]))
     = fst (createStyle stringify emptyWorkbook
              (JObject [(''font'', JObject [(''bold'', JBool True), (''size'', JNum (Fin 12))]),
                        (''numberFormat'', JStr ''0.00'')]))
   \<and> fst (getStringIndex (snd (getStringIndex emptyWorkbook ''Hello'')) ''Hello'') = 0
   \<and> fst (getStringIndex emptyWorkbook ''Hello'') = 0
   \<and> fst (getStringIndex (snd (getStringIndex emptyWorkbook ''Hello'')) ''World'') = 1"
proof (intro allI conjI)
  fix stringify :: "jsval \<Rightarrow> string"
  let ?a = "JObject [(''font'', JObject [(''bold'', JBool True), (''size'', JNum (Fin 12))]),
                     (''numberFormat'', JStr ''0.00'')]"
  let ?b = "JObject [(''numberFormat'', JStr ''0.00''),
                     (''font'', JObject [(''size'', JNum (Fin 12)), (''bold'', JBool True)])]"
  note main = interning_idempotent_append_only[OF interned_empty, of stringify]
  have inner: "reordered (JObject [(''bold'', JBool True), (''size'', JNum (Fin 12))])
                         (JObject [(''size'', JNum (Fin 12)), (''bold'', JBool True)])"
    by (rule reordered.fields[where hs = "[(''bold'', JBool True), (''size'', JNum (Fin 12))]"])
       (simp_all add: reordered.same)
  have r: "reordered ?a ?b"
    by (rule reordered.fields[where hs = "[(''font'', JObject [(''size'', JNum (Fin 12)), (''bold'', JBool True)]),
                     (''numberFormat'', JStr ''0.00'')]"])
       (simp_all add: reordered.same inner)
  have d: "distinctFields ?a" by simp
  from r d have keys: "stringify (canonical ?a) = stringify (canonical ?b)"
    using main[THEN conjunct2, THEN conjunct1, rule_format, of ?a ?b] by simp
  show "fst (createStyle stringify
            (foldl (perform stringify) (snd (createStyle stringify emptyWorkbook ?a))
               [GetStringIndex ''Hello'', CreateStyle (JObject [(''font'', JNull)])]) ?b)
     = fst (createStyle stringify emptyWorkbook ?a)"
    using main[THEN conjunct1, rule_format, OF keys,
        of "[GetStringIndex ''Hello'', CreateStyle (JObject [(''font'', JNull)])]"]
    by simp
next
  show "fst (getStringIndex (snd (getStringIndex emptyWorkbook ''Hello'')) ''Hello'') = 0"
    by (simp add: getStringIndex_def emptyWorkbook_def Let_def)
  show "fst (getStringIndex emptyWorkbook ''Hello'') = 0"
    by (simp add: getStringIndex_def emptyWorkbook_def Let_def)
  show "fst (getStringIndex (snd (getStringIndex emptyWorkbook ''Hello'')) ''World'') = 1"
    by (simp add: getStringIndex_def emptyWorkbook_def Let_def)
qed

text \<open>
  The claim as the specification states it has every structurally distinct value appended
  under a new, larger index. \<open>JSON.stringify\<close> writes \<open>null\<close> for \<open>NaN\<close> as for \<open>null\<close>: after a
  style with the size \<open>NaN\<close> has been registered in the empty workbook under the index 0,
  \<open>createStyle\<close> with the size \<open>null\<close> returns that style, with the index 0 and the size
  \<open>NaN\<close>, and appends nothing.
\<close>

theorem structurally_distinct_not_appended_counterexample:
  "JObject [(''size'', JNum NaN)] \<noteq> JObject [(''size'', JNull)]
   \<and> length (styles (snd (createStyle (JSON_stringify finiteNotConsulted) emptyWorkbook
                            (JObject [(''size'', JNum NaN)])))) = 1
   \<and> cellXfs (fst (createStyle (JSON_stringify finiteNotConsulted) emptyWorkbook
                            (JObject [(''size'', JNum NaN)]))) = Some 0
   \<and> length (styles (snd (createStyle (JSON_stringify finiteNotConsulted)
         (snd (createStyle (JSON_stringify finiteNotConsulted) emptyWorkbook
                 (JObject [(''size'', JNum NaN)])))
         (JObject [(''size'', JNull)])))) = 1
   \<and> cellXfs (fst (createStyle (JSON_stringify finiteNotConsulted)
         (snd (createStyle (JSON_stringify finiteNotConsulted) emptyWorkbook
                 (JObject [(''size'', JNum NaN)])))
         (JObject [(''size'', JNull)]))) = Some 0
   \<and> toObject (fst (createStyle (JSON_stringify finiteNotConsulted)
         (snd (createStyle (JSON_stringify finiteNotConsulted) emptyWorkbook
                 (JObject [(''size'', JNum NaN)])))
         (JObject [(''size'', JNull)]))) = JObject [(''size'', JNum NaN)]"
  by code_simp


section \<open>Properties of the worksheet stages\<close>

subsection \<open>Batches of rows\<close>

lemma processRows_append:
  "processRows u (xs @ ys) p =
     (case processRows u xs p of Inl e \<Rightarrow> Inl e | Inr p' \<Rightarrow> processRows u ys p')"
  by (induction xs arbitrary: p) (auto split: sum.splits)

lemma processNextRows_unbatched:
  "0 < chunk \<Longrightarrow>
   processNextRows u chunk remaining p =
     (case processRows u remaining p of
        Inl e \<Rightarrow> Inl e
      | Inr finished \<Rightarrow> Inr (finished\<lparr>xml := xml finished @ [Up]\<rparr>))"
proof (induction u chunk remaining p rule: processNextRows.induct)
  case (1 u chunk remaining p)
  show ?case
  proof (cases "take chunk remaining = []")
    case True
    with "1.prems" have "remaining = []" by (cases remaining) auto
    then show ?thesis by (simp add: processNextRows.simps)
  next
    case False
    have whole: "processRows u remaining p =
        (case processRows u (take chunk remaining) p of
           Inl e \<Rightarrow> Inl e
         | Inr p' \<Rightarrow> processRows u (drop chunk remaining) p')"
      using processRows_append[of u "take chunk remaining" "drop chunk remaining" p] by simp
    show ?thesis
    proof (cases "processRows u (take chunk remaining) p")
      case (Inl e)
      with False whole show ?thesis
        by (simp add: processNextRows.simps[of u chunk remaining p])
    next
      case (Inr after)
      from "1.IH"[OF refl _ Inr] False "1.prems"
      have "processNextRows u chunk (drop chunk remaining) after =
        (case processRows u (drop chunk remaining) after of
           Inl e \<Rightarrow> Inl e
         | Inr finished \<Rightarrow> Inr (finished\<lparr>xml := xml finished @ [Up]\<rparr>))"
        by simp
      with Inr False whole show ?thesis
        by (simp add: processNextRows.simps[of u chunk remaining p])
    qed
  qed
qed

text \<open>
  C3. For every worksheet and every number of rows, processing the row keys in batches of
  any positive size, 500 in the source, gives what one traversal of all the rows gives:
  the same builder calls in the same order and the same worksheet afterwards, or the same
  exception.
\<close>

theorem batching_keeps_output:
  "(\<forall>chunk > 0.
      processNextRows u chunk (rowKeys (rows (ws p))) (p\<lparr>xml := xml p @ [Ele ''sheetData'']\<rparr>)
      = unbatchedSheetData u p)
   \<and> addSheetData u p = unbatchedSheetData u p"
  by (simp add: processNextRows_unbatched addSheetData_def unbatchedSheetData_def)

theorem batching_keeps_output_witness:
  "(0::nat) < 2
   \<and> processNextRows exampleExternals 2 (rowKeys (rows exampleSheet))
        \<lparr>ws = exampleSheet, xml = [Ele ''sheetData'']\<rparr>
     = unbatchedSheetData exampleExternals \<lparr>ws = exampleSheet, xml = []\<rparr>
   \<and> (case unbatchedSheetData exampleExternals \<lparr>ws = exampleSheet, xml = []\<rparr> of
        Inl e \<Rightarrow> False
      | Inr q \<Rightarrow> map (\<lambda>c. case c of Att k v \<Rightarrow> v | _ \<Rightarrow> JNull)
                   (filter (\<lambda>c. case c of Att k v \<Rightarrow> k = ''r'' | _ \<Rightarrow> False) (xml q))
                 = [JNum (Fin 5), JStr ''A5'', JStr ''B5'', JStr ''C5'',
                    JNum (Fin 6), JStr ''A6'', JStr ''B6'', JStr ''C6'',
                    JNum (Fin 7), JStr ''A7'', JStr ''B7'', JStr ''C7''])"
proof -
  have "case unbatchedSheetData exampleExternals \<lparr>ws = exampleSheet, xml = []\<rparr> of
        Inl e \<Rightarrow> False
      | Inr q \<Rightarrow> map (\<lambda>c. case c of Att k v \<Rightarrow> v | _ \<Rightarrow> JNull)
                   (filter (\<lambda>c. case c of Att k v \<Rightarrow> k = ''r'' | _ \<Rightarrow> False) (xml q))
                 = [JNum (Fin 5), JStr ''A5'', JStr ''B5'', JStr ''C5'',
                    JNum (Fin 6), JStr ''A6'', JStr ''B6'', JStr ''C6'',
                    JNum (Fin 7), JStr ''A7'', JStr ''B7'', JStr ''C7'']"
    by code_simp
  with batching_keeps_output[of exampleExternals "\<lparr>ws = exampleSheet, xml = []\<rparr>"]
  show ?thesis by simp
qed

subsection \<open>The auto filter\<close>

lemma firstEmptyRow_spec:
  "s \<le> firstEmptyRow rs s \<and> rowAt rs (firstEmptyRow rs s) = None
   \<and> (\<forall>k. s \<le> k \<and> k < firstEmptyRow rs s \<longrightarrow> rowAt rs k \<noteq> None)"
proof (induction rs s rule: firstEmptyRow.induct)
  case (1 rs curRow)
  show ?case
  proof (cases "rowAt rs curRow = None")
    case True
    then show ?thesis by (auto simp: firstEmptyRow.simps[of rs curRow])
  next
    case False
    then have eq: "firstEmptyRow rs curRow = firstEmptyRow rs (curRow + 1)"
      by (subst firstEmptyRow.simps) (simp only: if_False)
    from "1.IH"[OF False]
    have le: "curRow + 1 \<le> firstEmptyRow rs (curRow + 1)"
      and none: "rowAt rs (firstEmptyRow rs (curRow + 1)) = None"
      and rest: "\<And>k. curRow + 1 \<le> k \<Longrightarrow> k < firstEmptyRow rs (curRow + 1) \<Longrightarrow>
                   rowAt rs k \<noteq> None"
      by blast+
    have "rowAt rs k \<noteq> None" if "curRow \<le> k" "k < firstEmptyRow rs (curRow + 1)" for k
    proof (cases "k = curRow")
      case True
      with False show ?thesis by simp
    next
      case neq: False
      with that(1) have "curRow + 1 \<le> k" by simp
      then show ?thesis using that(2) by (rule rest)
    qed
    with le none show ?thesis unfolding eq by auto
  qed
qed


lemma rowAt_present: "rowAt rs k \<noteq> None \<Longrightarrow> 0 \<le> k \<and> nat k \<in> set (map fst rs)"
  by (auto simp: rowAt_def split: if_splits dest: map_of_SomeD intro: rev_image_eqI)

lemma firstEmptyRow_bound: "firstEmptyRow rs s \<le> s + int (length rs)"
proof -
  let ?e = "firstEmptyRow rs s"
  have present: "rowAt rs k \<noteq> None" if "k \<in> {s..<?e}" for k
    using that firstEmptyRow_spec[of s rs] by auto
  have "inj_on nat {s..<?e}"
    by (rule inj_onI) (use present rowAt_present in \<open>metis nat_eq_iff\<close>)
  then have "card (nat ` {s..<?e}) = card {s..<?e}"
    by (rule card_image)
  moreover have "nat ` {s..<?e} \<subseteq> set (map fst rs)"
    using present rowAt_present by blast
  then have "card (nat ` {s..<?e}) \<le> card (set (map fst rs))"
    by (simp add: card_mono)
  moreover have "card (set (map fst rs)) \<le> length rs"
    using card_length[of "map fst rs"] by simp
  ultimately have "card {s..<?e} \<le> length rs"
    by simp
  then show ?thesis by simp
qed

text \<open>
  C1. For every worksheet whose \<open>autoFilter.startRow\<close> is a number \<open>s\<close>, and which has a row
  \<open>s\<close> when a column bound has to be read from it: the stage returns; an unset end row is
  resolved to the \<open>e\<close> with rows \<open>s\<close> to \<open>e\<close> all present and row \<open>e + 1\<close> absent (one less
  than the first row number with no row), a set one is kept; unless both column bounds are
  set they are the first and last column of row \<open>s\<close>; the \<open>autoFilter\<close> element gets the
  range as its \<open>ref\<close>; and exactly one defined name, \<open>_xlnm._FilterDatabase\<close>, hidden, with
  the worksheet's local sheet id and the absolute range formula, is appended to the
  workbook's defined names.
\<close>

theorem autoFilter_resolution:
  assumes "startRow (autoFilter (ws p)) = Some s"
    and "startCol (autoFilter (ws p)) = None \<or> endCol (autoFilter (ws p)) = None \<longrightarrow>
           rowAt (rows (ws p)) s \<noteq> None"
  shows "\<exists>e c1 c2.
    addAutoFilter u p =
      Inr (p\<lparr>ws := (ws p)
               \<lparr>autoFilter := \<lparr>startRow = Some s, endRow = Some e,
                               startCol = Some c1, endCol = Some c2\<rparr>,
                wb := (wb (ws p))
                  \<lparr>definedNameCollection := definedNameCollection (wb (ws p)) @
                     [JObject
                        [(''hidden'', JNum (Fin 1)),
                         (''localSheetId'', localSheetId (ws p)),
                         (''name'', JStr ''_xlnm._FilterDatabase''),
                         (''refFormula'', JStr
                            ([CHR 0x27] @ name (ws p) @ [CHR 0x27] @ ''!''
                             @ ''$'' @ getExcelAlpha u c1 @ ''$'' @ numberToString s
                             @ '':''
                             @ ''$'' @ getExcelAlpha u c2 @ ''$'' @ numberToString e))]]\<rparr>\<rparr>,
             xml := xml p @
               [Ele ''autoFilter'',
                Att ''ref'' (JStr (getExcelAlpha u c1 @ numberToString s @ '':''
                                   @ getExcelAlpha u c2 @ numberToString e)),
                Up]\<rparr>)
    \<and> (case endRow (autoFilter (ws p)) of
         Some given \<Rightarrow> e = given
       | None \<Rightarrow> s - 1 \<le> e \<and> rowAt (rows (ws p)) (e + 1) = None
                 \<and> (\<forall>k. s \<le> k \<and> k \<le> e \<longrightarrow> rowAt (rows (ws p)) k \<noteq> None))
    \<and> (case (startCol (autoFilter (ws p)), endCol (autoFilter (ws p))) of
         (Some givenStart, Some givenEnd) \<Rightarrow> c1 = givenStart \<and> c2 = givenEnd
       | _ \<Rightarrow> (\<exists>filterRow. rowAt (rows (ws p)) s = Some filterRow
                 \<and> c1 = firstColumn u filterRow \<and> c2 = lastColumn u filterRow))"
proof -
  let ?f = "autoFilter (ws p)" and ?rs = "rows (ws p)"
  define e where "e = (case endRow ?f of Some given \<Rightarrow> given | None \<Rightarrow> firstEmptyRow ?rs s - 1)"
  let ?cols = "case (startCol ?f, endCol ?f) of
                 (Some givenStart, Some givenEnd) \<Rightarrow> Inr (givenStart, givenEnd)
               | _ \<Rightarrow> (case rowAt ?rs s of
                         None \<Rightarrow> Inl (TypeError ''Cannot read property firstColumn of undefined'')
                       | Some row \<Rightarrow> Inr (firstColumn u row, lastColumn u row))"
  obtain c1 c2 where cols: "?cols = Inr (c1, c2)"
    and colsP: "case (startCol ?f, endCol ?f) of
         (Some givenStart, Some givenEnd) \<Rightarrow> c1 = givenStart \<and> c2 = givenEnd
       | _ \<Rightarrow> (\<exists>filterRow. rowAt ?rs s = Some filterRow
                 \<and> c1 = firstColumn u filterRow \<and> c2 = lastColumn u filterRow)"
    using assms(2) by (cases "startCol ?f"; cases "endCol ?f"; cases "rowAt ?rs s") auto
  have endP: "case endRow ?f of
         Some given \<Rightarrow> e = given
       | None \<Rightarrow> s - 1 \<le> e \<and> rowAt ?rs (e + 1) = None
                 \<and> (\<forall>k. s \<le> k \<and> k \<le> e \<longrightarrow> rowAt ?rs k \<noteq> None)"
    using firstEmptyRow_spec[of s ?rs] by (auto simp: e_def split: option.splits)
  have "addAutoFilter u p =
      Inr (p\<lparr>ws := (ws p)
               \<lparr>autoFilter := \<lparr>startRow = Some s, endRow = Some e,
                               startCol = Some c1, endCol = Some c2\<rparr>,
                wb := (wb (ws p))
                  \<lparr>definedNameCollection := definedNameCollection (wb (ws p)) @
                     [JObject
                        [(''hidden'', JNum (Fin 1)),
                         (''localSheetId'', localSheetId (ws p)),
                         (''name'', JStr ''_xlnm._FilterDatabase''),
                         (''refFormula'', JStr
                            ([CHR 0x27] @ name (ws p) @ [CHR 0x27] @ ''!''
                             @ ''$'' @ getExcelAlpha u c1 @ ''$'' @ numberToString s
                             @ '':''
                             @ ''$'' @ getExcelAlpha u c2 @ ''$'' @ numberToString e))]]\<rparr>\<rparr>,
             xml := xml p @
               [Ele ''autoFilter'',
                Att ''ref'' (JStr (getExcelAlpha u c1 @ numberToString s @ '':''
                                   @ getExcelAlpha u c2 @ numberToString e)),
                Up]\<rparr>)"
    unfolding addAutoFilter_def Let_def using assms(1) cols
    by (simp add: e_def addDefinedName_def)
  with endP colsP show ?thesis by blast
qed

theorem autoFilter_resolution_witness:
  "startRow (autoFilter exampleSheet) = Some 5
   \<and> rowAt (rows exampleSheet) 5 \<noteq> None
   \<and> (case addAutoFilter exampleExternals \<lparr>ws = exampleSheet, xml = []\<rparr> of
        Inl e \<Rightarrow> False
      | Inr q \<Rightarrow>
          autoFilter (ws q) =
            \<lparr>startRow = Some 5, endRow = Some 7, startCol = Some 1, endCol = Some 3\<rparr>
          \<and> xml q = [Ele ''autoFilter'', Att ''ref'' (JStr ''A5:C7''), Up]
          \<and> definedNameCollection (wb (ws q)) =
               [JObject [(''hidden'', JNum (Fin 1)), (''localSheetId'', JNum (Fin 0)),
                         (''name'', JStr ''_xlnm._FilterDatabase''),
                         (''refFormula'',
                          JStr ([CHR 0x27] @ ''Sheet1'' @ [CHR 0x27] @ ''!$A$5:$C$7''))]])"
proof -
  have s: "startRow (autoFilter (ws \<lparr>ws = exampleSheet, xml = []\<rparr>)) = Some 5"
    by (simp add: exampleSheet_def)
  have r: "rowAt (rows exampleSheet) 5 \<noteq> None"
    by (simp add: exampleSheet_def rowAt_def)
  then have r': "startCol (autoFilter (ws \<lparr>ws = exampleSheet, xml = []\<rparr>)) = None
        \<or> endCol (autoFilter (ws \<lparr>ws = exampleSheet, xml = []\<rparr>)) = None
        \<longrightarrow> rowAt (rows (ws \<lparr>ws = exampleSheet, xml = []\<rparr>)) 5 \<noteq> None"
    by simp
  from autoFilter_resolution[OF s r', of exampleExternals]
  obtain q where q: "addAutoFilter exampleExternals \<lparr>ws = exampleSheet, xml = []\<rparr> = Inr q"
    by blast
  have "case addAutoFilter exampleExternals \<lparr>ws = exampleSheet, xml = []\<rparr> of
        Inl e \<Rightarrow> False
      | Inr q \<Rightarrow>
          autoFilter (ws q) =
            \<lparr>startRow = Some 5, endRow = Some 7, startCol = Some 1, endCol = Some 3\<rparr>
          \<and> xml q = [Ele ''autoFilter'', Att ''ref'' (JStr ''A5:C7''), Up]
          \<and> definedNameCollection (wb (ws q)) =
               [JObject [(''hidden'', JNum (Fin 1)), (''localSheetId'', JNum (Fin 0)),
                         (''name'', JStr ''_xlnm._FilterDatabase''),
                         (''refFormula'',
                          JStr ([CHR 0x27] @ ''Sheet1'' @ [CHR 0x27] @ ''!$A$5:$C$7''))]]"
    by code_simp
  with s r q show ?thesis by simp
qed

subsection \<open>Bounds that cannot be resolved\<close>

lemma firstEmptyRow_last:
  "\<forall>k \<in> set (map fst rs). int k \<le> m \<Longrightarrow> firstEmptyRow rs s \<le> max s (m + 1)"
proof (induction rs s rule: firstEmptyRow.induct)
  case (1 rs curRow)
  show ?case
  proof (cases "rowAt rs curRow = None")
    case True
    then show ?thesis by (simp add: firstEmptyRow.simps[of rs curRow])
  next
    case False
    from rowAt_present[OF False] 1(2) have "curRow \<le> m"
      by auto
    moreover from 1(1)[OF False 1(2)]
    have "firstEmptyRow rs (curRow + 1) \<le> max (curRow + 1) (m + 1)" .
    ultimately show ?thesis
      using False by (simp add: firstEmptyRow.simps[of rs curRow])
  qed
qed

text \<open>
  C8, as the code has it. For every worksheet whose \<open>autoFilter.startRow\<close> is a number \<open>s\<close>:
  the stage throws exactly when a column bound is unset and there is no row \<open>s\<close> to read it
  from; the resolved bounds are not checked, so with both column bounds set, the end row
  unset and no row \<open>s\<close>, the stage returns with the end row \<open>s - 1\<close> and writes that range.
  The scan for the end row always ends: at a row number between \<open>s\<close> and \<open>s\<close> plus the number
  of rows of the worksheet, at \<open>s\<close> itself when there is no row \<open>s\<close>, and never past the row
  after the highest row number; so it is bounded by the last used row, ending at \<open>s\<close> or at
  most one row after \<open>lastUsedRow\<close>, whenever no row number is greater than \<open>lastUsedRow\<close>.
\<close>

theorem autoFilter_unresolved_bounds:
  assumes "startRow (autoFilter (ws p)) = Some s"
  shows "(isl (addAutoFilter u p) \<longleftrightarrow>
            (startCol (autoFilter (ws p)) = None \<or> endCol (autoFilter (ws p)) = None)
            \<and> rowAt (rows (ws p)) s = None)
       \<and> s \<le> firstEmptyRow (rows (ws p)) s
       \<and> firstEmptyRow (rows (ws p)) s \<le> s + int (length (rows (ws p)))
       \<and> (rowAt (rows (ws p)) s = None \<longrightarrow> firstEmptyRow (rows (ws p)) s = s)
       \<and> (\<forall>m. (\<forall>k \<in> set (map fst (rows (ws p))). int k \<le> m) \<longrightarrow>
              firstEmptyRow (rows (ws p)) s \<le> max s (m + 1))
       \<and> ((\<forall>k \<in> set (map fst (rows (ws p))). int k \<le> lastUsedRow (ws p)) \<longrightarrow>
              firstEmptyRow (rows (ws p)) s \<le> max s (lastUsedRow (ws p) + 1))
       \<and> (\<forall>c1 c2. startCol (autoFilter (ws p)) = Some c1 \<and> endCol (autoFilter (ws p)) = Some c2
              \<and> endRow (autoFilter (ws p)) = None \<and> rowAt (rows (ws p)) s = None \<longrightarrow>
            (\<exists>q. addAutoFilter u p = Inr q
               \<and> autoFilter (ws q) = \<lparr>startRow = Some s, endRow = Some (s - 1),
                                       startCol = Some c1, endCol = Some c2\<rparr>
               \<and> xml q = xml p @
                   [Ele ''autoFilter'',
                    Att ''ref'' (JStr (getExcelAlpha u c1 @ numberToString s @ '':''
                                       @ getExcelAlpha u c2 @ numberToString (s - 1))),
                    Up]))"
proof (intro conjI allI impI)
  show "isl (addAutoFilter u p) \<longleftrightarrow>
            (startCol (autoFilter (ws p)) = None \<or> endCol (autoFilter (ws p)) = None)
            \<and> rowAt (rows (ws p)) s = None"
    using assms
    by (cases "startCol (autoFilter (ws p))"; cases "endCol (autoFilter (ws p))";
        cases "rowAt (rows (ws p)) s")
       (simp_all add: addAutoFilter_def Let_def)
  show "s \<le> firstEmptyRow (rows (ws p)) s"
    using firstEmptyRow_spec by blast
  show "firstEmptyRow (rows (ws p)) s \<le> s + int (length (rows (ws p)))"
    by (rule firstEmptyRow_bound)
  show "firstEmptyRow (rows (ws p)) s = s" if "rowAt (rows (ws p)) s = None"
    using that by (simp add: firstEmptyRow.simps[of _ s])
  show "firstEmptyRow (rows (ws p)) s \<le> max s (m + 1)"
    if "\<forall>k \<in> set (map fst (rows (ws p))). int k \<le> m" for m
    using that by (rule firstEmptyRow_last)
  show "firstEmptyRow (rows (ws p)) s \<le> max s (lastUsedRow (ws p) + 1)"
    if "\<forall>k \<in> set (map fst (rows (ws p))). int k \<le> lastUsedRow (ws p)"
    using that by (rule firstEmptyRow_last)
next
  fix c1 c2
  assume a: "startCol (autoFilter (ws p)) = Some c1 \<and> endCol (autoFilter (ws p)) = Some c2
              \<and> endRow (autoFilter (ws p)) = None \<and> rowAt (rows (ws p)) s = None"
  then have "firstEmptyRow (rows (ws p)) s = s"
    by (simp add: firstEmptyRow.simps[of _ s])
  with a assms
  show "\<exists>q. addAutoFilter u p = Inr q
               \<and> autoFilter (ws q) = \<lparr>startRow = Some s, endRow = Some (s - 1),
                                       startCol = Some c1, endCol = Some c2\<rparr>
               \<and> xml q = xml p @
                   [Ele ''autoFilter'',
                    Att ''ref'' (JStr (getExcelAlpha u c1 @ numberToString s @ '':''
                                       @ getExcelAlpha u c2 @ numberToString (s - 1))),
                    Up]"
    by (simp add: addAutoFilter_def Let_def)
qed

text \<open>
  The claim as the specification states it has the stage fail when no row exists at or
  after the start row. With start row 5, columns 1 to 3 given and no rows at all, the
  code returns and writes the range \<open>A5:C4\<close>.
\<close>

theorem autoFilter_unresolved_bounds_counterexample:
  "\<not> isl (addAutoFilter exampleExternals
            \<lparr>ws = exampleSheet
               \<lparr>rows := [],
                autoFilter := \<lparr>startRow = Some 5, endRow = None,
                                startCol = Some 1, endCol = Some 3\<rparr>\<rparr>,
             xml = []\<rparr>)
   \<and> xml (projr (addAutoFilter exampleExternals
            \<lparr>ws = exampleSheet
               \<lparr>rows := [],
                autoFilter := \<lparr>startRow = Some 5, endRow = None,
                                startCol = Some 1, endCol = Some 3\<rparr>\<rparr>,
             xml = []\<rparr>))
       = [Ele ''autoFilter'', Att ''ref'' (JStr ''A5:C4''), Up]
   \<and> endRow (autoFilter (ws (projr (addAutoFilter exampleExternals
            \<lparr>ws = exampleSheet
               \<lparr>rows := [],
                autoFilter := \<lparr>startRow = Some 5, endRow = None,
                                startCol = Some 1, endCol = Some 3\<rparr>\<rparr>,
             xml = []\<rparr>))))
       = Some 4"
  by code_simp

theorem autoFilter_unresolved_bounds_witness:
  "startRow (autoFilter exampleSheet) = Some 5
   \<and> isl (addAutoFilter exampleExternals \<lparr>ws = exampleSheet\<lparr>rows := []\<rparr>, xml = []\<rparr>)
   \<and> firstEmptyRow (rows exampleSheet) 5 \<le> 5 + 3
   \<and> list_all (\<lambda>k. int k \<le> lastUsedRow exampleSheet) (map fst (rows exampleSheet))
   \<and> lastUsedRow exampleSheet = 7
   \<and> firstEmptyRow (rows exampleSheet) 5 \<le> 8
   \<and> \<not> isl (addAutoFilter exampleExternals \<lparr>ws = exampleSheet, xml = []\<rparr>)"
proof -
  have s: "startRow (autoFilter (ws \<lparr>ws = exampleSheet\<lparr>rows := []\<rparr>, xml = []\<rparr>)) = Some 5"
    and s': "startRow (autoFilter (ws \<lparr>ws = exampleSheet, xml = []\<rparr>)) = Some 5"
    by (simp_all add: exampleSheet_def)
  from autoFilter_unresolved_bounds[OF s, of exampleExternals]
       autoFilter_unresolved_bounds[OF s', of exampleExternals]
  show ?thesis
    by (simp add: exampleSheet_def rowAt_def)
qed


subsection \<open>What the stages write into the worksheet\<close>

lemma update_present:
  "map_of al k = Some v \<Longrightarrow> distinct (map fst al) \<Longrightarrow>
   AList.update k (f v) al = map (\<lambda>(k', x). if k' = k then (k', f x) else (k', x)) al"
proof (induction al)
  case Nil
  then show ?case by simp
next
  case (Cons a al)
  obtain k0 v0 where a: "a = (k0, v0)" by (cases a)
  show ?case
  proof (cases "k0 = k")
    case True
    with Cons.prems a have "k \<notin> fst ` set al" by auto
    then have "map (\<lambda>(k', x). if k' = k then (k', f x) else (k', x)) al = al"
      by (induction al) auto
    with True a Cons.prems show ?thesis by simp
  next
    case False
    with Cons a show ?thesis by simp
  qed
qed

lemma getProp_update:
  "getProp (AList.update k v obj) k' = (if k' = k then v else getProp obj k')"
  by (simp add: getProp_def update_conv')

lemma processRow_writes:
  assumes "processRow u p k = Inr q" and "distinct (map fst (rows (ws p)))"
  shows "ws q = (ws p)\<lparr>rows := map (\<lambda>(k', row).
            if k' = k then (k', row\<lparr>cellRefs := sortCellRefs u (cellRefs row)\<rparr>) else (k', row))
          (rows (ws p))\<rparr>"
  using assms
  by (auto simp: processRow_def Let_def
        update_present[where f = "\<lambda>row. row\<lparr>cellRefs := sortCellRefs u (cellRefs row)\<rparr>"]
      split: option.splits sum.splits)

lemma keys_after_sorting:
  "map (fst \<circ> (\<lambda>(k', row). if P k' then (k', f row) else (k', row))) rs = map fst rs"
  by (induction rs) auto

lemma processRows_writes:
  assumes "processRows u ks p = Inr q" and "distinct (map fst (rows (ws p)))"
    and "distinct ks"
  shows "ws q = (ws p)\<lparr>rows := map (\<lambda>(k', row).
            if k' \<in> set ks then (k', row\<lparr>cellRefs := sortCellRefs u (cellRefs row)\<rparr>)
            else (k', row))
          (rows (ws p))\<rparr>"
  using assms
proof (induction ks arbitrary: p)
  case Nil
  have "map (\<lambda>(k', row). (k', row)) rs = rs" for rs :: "(nat \<times> Row) list"
    by (induction rs) auto
  with Nil show ?case by simp
next
  case (Cons k ks)
  from Cons.prems(1) obtain p1 where step: "processRow u p k = Inr p1"
    and rest: "processRows u ks p1 = Inr q"
    by (auto split: sum.splits)
  note w1 = processRow_writes[OF step Cons.prems(2)]
  have d1: "distinct (map fst (rows (ws p1)))"
    using Cons.prems(2) by (simp add: w1 keys_after_sorting)
  from Cons.prems(3) have k: "k \<notin> set ks" and d: "distinct ks" by simp_all
  have "map (\<lambda>(k', row). if k' \<in> set ks
              then (k', row\<lparr>cellRefs := sortCellRefs u (cellRefs row)\<rparr>) else (k', row))
          (map (\<lambda>(k', row). if k' = k
              then (k', row\<lparr>cellRefs := sortCellRefs u (cellRefs row)\<rparr>) else (k', row)) rs)
        = map (\<lambda>(k', row). if k' \<in> set (k # ks)
              then (k', row\<lparr>cellRefs := sortCellRefs u (cellRefs row)\<rparr>) else (k', row)) rs"
    for rs :: "(nat \<times> Row) list"
    using k by (induction rs) auto
  with Cons.IH[OF rest d1 d] w1 show ?case by simp
qed

lemma rowKeys_props: "distinct (rowKeys rs)" "set (rowKeys rs) = fst ` set rs"
  by (simp_all add: rowKeys_def)

lemma addSheetData_writes:
  assumes "addSheetData u p = Inr q" and "distinct (map fst (rows (ws p)))"
  shows "ws q = (ws p)\<lparr>rows :=
           map (\<lambda>(k, row). (k, row\<lparr>cellRefs := sortCellRefs u (cellRefs row)\<rparr>)) (rows (ws p))\<rparr>"
proof -
  let ?p0 = "p\<lparr>xml := xml p @ [Ele ''sheetData'']\<rparr>"
  from assms(1) obtain q0 where run: "processRows u (rowKeys (rows (ws p))) ?p0 = Inr q0"
    and q: "q = q0\<lparr>xml := xml q0 @ [Up]\<rparr>"
    by (auto simp: addSheetData_def processNextRows_unbatched split: sum.splits)
  have "map (\<lambda>(k', row). if k' \<in> fst ` set rs
              then (k', row\<lparr>cellRefs := sortCellRefs u (cellRefs row)\<rparr>) else (k', row)) rs
        = map (\<lambda>(k, row). (k, row\<lparr>cellRefs := sortCellRefs u (cellRefs row)\<rparr>)) rs"
    for rs :: "(nat \<times> Row) list"
    by (rule map_cong) force+
  with processRows_writes[OF run _ rowKeys_props(1)] assms(2) q
  show ?thesis by (simp add: rowKeys_props(2))
qed

lemma addSheetProtection_writes:
  assumes "addSheetProtection u p = Inr q"
  shows "ws q = (ws p)\<lparr>sheetProtection := sheetProtection (ws q)\<rparr>"
    and "getProp (sheetProtection (ws q)) k =
           (if (\<exists>k' \<in> set (map fst (sheetProtection (ws p))).
                  getProp (sheetProtection (ws p)) k' \<noteq> JNull)
               \<and> k \<in> {''sheet'', ''objects'', ''scenarios''}
               \<and> getProp (sheetProtection (ws p)) k = JNull
            then JBool True else getProp (sheetProtection (ws p)) k)"
  using assms
  by (auto simp: addSheetProtection_def Let_def getProp_update simp del: set_map
           split: if_splits)

lemma addAutoFilter_writes:
  assumes "addAutoFilter u p = Inr q"
  shows "ws q = (ws p)\<lparr>autoFilter := autoFilter (ws q),
                         wb := (wb (ws p))\<lparr>definedNameCollection :=
                                 definedNameCollection (wb (ws q))\<rparr>\<rparr>"
    and "case startRow (autoFilter (ws p)) of
           None \<Rightarrow> autoFilter (ws q) = autoFilter (ws p)
                   \<and> definedNameCollection (wb (ws q)) = definedNameCollection (wb (ws p))
         | Some s \<Rightarrow>
             startRow (autoFilter (ws q)) = Some s
             \<and> endRow (autoFilter (ws q)) \<noteq> None
             \<and> startCol (autoFilter (ws q)) \<noteq> None
             \<and> endCol (autoFilter (ws q)) \<noteq> None
             \<and> (\<exists>entry. definedNameCollection (wb (ws q)) =
                          definedNameCollection (wb (ws p)) @ [entry])"
  using assms
  by (auto simp: addAutoFilter_def Let_def addDefinedName_def
           split: option.splits sum.splits prod.splits)

lemma keepsSheet_before:
  "keepsSheet addSheetPr" "keepsSheet (addDimension u)" "keepsSheet addSheetViews"
  "keepsSheet (addSheetFormatPr u)" "keepsSheet (addCols u)"
  by (auto simp: keepsSheet_def addSheetPr_def addDimension_def addSheetViews_def
        addSheetFormatPr_def addCols_def Let_def split: if_splits sum.splits)

lemma keepsSheet_after:
  "keepsSheet addMergeCells" "keepsSheet addConditionalFormatting"
  "keepsSheet (addDataValidations u)" "keepsSheet addHyperlinks" "keepsSheet addPrintOptions"
  "keepsSheet addPageMargins" "keepsSheet (addPageSetup u)" "keepsSheet (addHeaderFooter u)"
  "keepsSheet addDrawing"
  by (auto simp: keepsSheet_def addMergeCells_def addConditionalFormatting_def
        addDataValidations_def addHyperlinks_def addPrintOptions_def addPageMargins_def
        addPageSetup_def addHeaderFooter_def addDrawing_def Let_def
      split: if_splits sum.splits jsval.splits prod.splits option.splits)

lemma foldl_bind_keeps:
  "list_all keepsSheet sts \<Longrightarrow> foldl bind (Inr p) sts = Inr q \<Longrightarrow> ws q = ws p"
proof (induction sts arbitrary: p)
  case Nil
  then show ?case by simp
next
  case (Cons st sts)
  show ?case
  proof (cases "st p")
    case (Inl e)
    with Cons.prems(2) show ?thesis by simp
  next
    case (Inr p')
    from Cons.prems(1) have k: "keepsSheet st" and ks: "list_all keepsSheet sts"
      by simp_all
    from k Inr have "ws p' = ws p"
      by (simp add: keepsSheet_def)
    moreover from Cons.prems(2) Inr have "foldl bind (Inr p') sts = Inr q"
      by simp
    ultimately show ?thesis using Cons.IH[OF ks, of p'] by simp
  qed
qed

lemma foldl_bind_append:
  assumes "foldl bind m (xs @ ys) = Inr q"
  obtains p where "foldl bind m xs = Inr p" and "foldl bind (Inr p) ys = Inr q"
  using assms by (cases "foldl bind m xs") simp_all

lemma stages_split:
  "stages u =
     [addSheetPr, addDimension u, addSheetViews, addSheetFormatPr u, addCols u]
     @ [addSheetData u, addSheetProtection u, addAutoFilter u]
     @ [addMergeCells, addConditionalFormatting, addDataValidations u, addHyperlinks,
        addPrintOptions, addPageMargins, addPageSetup u, addHeaderFooter u, addDrawing]"
  by (simp add: stages_def)

text \<open>
  C9, as the code has it. For every worksheet with one row for each row number, and every
  run of \<open>sheetXML\<close> through its seventeen stages that returns: the worksheet afterwards is
  the worksheet before with the \<open>cellRefs\<close> of each row sorted, and with its \<open>sheetProtection\<close>
  and \<open>autoFilter\<close> options and the defined names of its workbook as the stages leave them;
  nothing else of the worksheet or of the workbook is written. In \<open>sheetProtection\<close>, when
  some option is not \<open>null\<close>, those of \<open>sheet\<close>, \<open>objects\<close> and \<open>scenarios\<close> that are \<open>null\<close> become
  \<open>true\<close>, and every other option keeps its value. With no start row the \<open>autoFilter\<close>
  options and the defined names are unchanged; with a start row, the four bounds of
  \<open>autoFilter\<close> are all set afterwards, the start row as it was, and one defined name has been
  appended.
\<close>

theorem serialization_writes:
  assumes "sheetXML u sheet = Inr q"
    and "distinct (map fst (rows sheet))"
  shows "ws q = sheet
           \<lparr>rows := map (\<lambda>(k, row). (k, row\<lparr>cellRefs := sortCellRefs u (cellRefs row)\<rparr>))
                         (rows sheet),
            sheetProtection := sheetProtection (ws q),
            autoFilter := autoFilter (ws q),
            wb := (wb sheet)\<lparr>definedNameCollection := definedNameCollection (wb (ws q))\<rparr>\<rparr>
       \<and> (\<forall>k. getProp (sheetProtection (ws q)) k =
              (if (\<exists>k' \<in> set (map fst (sheetProtection sheet)).
                     getProp (sheetProtection sheet) k' \<noteq> JNull)
                  \<and> k \<in> {''sheet'', ''objects'', ''scenarios''}
                  \<and> getProp (sheetProtection sheet) k = JNull
               then JBool True else getProp (sheetProtection sheet) k))
       \<and> (case startRow (autoFilter sheet) of
             None \<Rightarrow> autoFilter (ws q) = autoFilter sheet
                     \<and> definedNameCollection (wb (ws q)) = definedNameCollection (wb sheet)
           | Some s \<Rightarrow>
               startRow (autoFilter (ws q)) = Some s
               \<and> endRow (autoFilter (ws q)) \<noteq> None
               \<and> startCol (autoFilter (ws q)) \<noteq> None
               \<and> endCol (autoFilter (ws q)) \<noteq> None
               \<and> (\<exists>entry. definedNameCollection (wb (ws q)) =
                            definedNameCollection (wb sheet) @ [entry]))"
proof -
  let ?p0 = "\<lparr>ws = sheet, xml = worksheetRoot\<rparr>"
  have start: "ws ?p0 = sheet"
    by simp
  from assms(1) have run: "foldl bind (Inr ?p0) (stages u) = Inr q"
    by (simp add: sheetXML_def)
  from run obtain pa where
    before: "foldl bind (Inr ?p0)
       [addSheetPr, addDimension u, addSheetViews, addSheetFormatPr u, addCols u] = Inr pa"
    and rest: "foldl bind (Inr pa)
       ([addSheetData u, addSheetProtection u, addAutoFilter u]
        @ [addMergeCells, addConditionalFormatting, addDataValidations u, addHyperlinks,
           addPrintOptions, addPageMargins, addPageSetup u, addHeaderFooter u, addDrawing])
       = Inr q"
    unfolding stages_split by (rule foldl_bind_append)
  from rest obtain p3 where
    middle: "foldl bind (Inr pa) [addSheetData u, addSheetProtection u, addAutoFilter u] = Inr p3"
    and after: "foldl bind (Inr p3)
       [addMergeCells, addConditionalFormatting, addDataValidations u, addHyperlinks,
        addPrintOptions, addPageMargins, addPageSetup u, addHeaderFooter u, addDrawing] = Inr q"
    by (rule foldl_bind_append)
  from middle obtain p1 p2 where s1: "addSheetData u pa = Inr p1"
    and s2: "addSheetProtection u p1 = Inr p2" and s3: "addAutoFilter u p2 = Inr p3"
    by (auto simp: bind_def split: sum.splits)
  have pa: "ws pa = sheet"
    using foldl_bind_keeps[OF _ before] start by (simp add: keepsSheet_before)
  have q: "ws q = ws p3"
    using foldl_bind_keeps[OF _ after] by (simp add: keepsSheet_after)
  have d: "distinct (map fst (rows (ws pa)))"
    using assms(2) pa by simp
  note w1 = addSheetData_writes[OF s1 d]
  note w2 = addSheetProtection_writes[OF s2]
  note w3 = addAutoFilter_writes[OF s3]
  have prot: "sheetProtection (ws p1) = sheetProtection (ws pa)"
    by (subst w1) simp
  have filt: "autoFilter (ws p2) = autoFilter (ws pa)" and book: "wb (ws p2) = wb (ws pa)"
    by (subst w2(1), subst w1, simp)+
  have sp: "sheetProtection (ws p3) = sheetProtection (ws p2)"
    by (subst w3(1)) simp
  have "ws p3 = (ws pa)
           \<lparr>rows := map (\<lambda>(k, row). (k, row\<lparr>cellRefs := sortCellRefs u (cellRefs row)\<rparr>))
                         (rows (ws pa)),
            sheetProtection := sheetProtection (ws p3),
            autoFilter := autoFilter (ws p3),
            wb := (wb (ws pa))\<lparr>definedNameCollection := definedNameCollection (wb (ws p3))\<rparr>\<rparr>"
    by (subst w3(1), subst w2(1), subst w1) (simp add: sp book)
  moreover have "\<forall>k. getProp (sheetProtection (ws p3)) k =
              (if (\<exists>k' \<in> set (map fst (sheetProtection (ws pa))).
                     getProp (sheetProtection (ws pa)) k' \<noteq> JNull)
                  \<and> k \<in> {''sheet'', ''objects'', ''scenarios''}
                  \<and> getProp (sheetProtection (ws pa)) k = JNull
               then JBool True else getProp (sheetProtection (ws pa)) k)"
    using w2(2) unfolding sp prot by blast
  moreover note w3(2)[unfolded filt book]
  ultimately show ?thesis unfolding q pa by blast
qed

theorem serialization_writes_witness:
  "distinct (map fst (rows exampleSheet))
   \<and> \<not> isl (sheetXML exampleExternals exampleSheet)
   \<and> rows (ws (projr (sheetXML exampleExternals exampleSheet)))
       = map (\<lambda>(k, row). (k, row\<lparr>cellRefs := sortCellRefs exampleExternals (cellRefs row)\<rparr>))
           (rows exampleSheet)
   \<and> cells (ws (projr (sheetXML exampleExternals exampleSheet))) = cells exampleSheet
   \<and> mergedCells (ws (projr (sheetXML exampleExternals exampleSheet)))
       = mergedCells exampleSheet
   \<and> getProp (sheetProtection (ws (projr (sheetXML exampleExternals exampleSheet)))) ''sort''
       = JBool False
   \<and> getProp (sheetProtection (ws (projr (sheetXML exampleExternals exampleSheet)))) ''objects''
       = JBool True"
proof -
  have d: "distinct (map fst (rows exampleSheet))"
    by (simp add: exampleSheet_def)
  have n: "\<not> isl (sheetXML exampleExternals exampleSheet)"
    by code_simp
  then obtain q where q: "sheetXML exampleExternals exampleSheet = Inr q"
    by (cases "sheetXML exampleExternals exampleSheet") auto
  note main = serialization_writes[OF q d]
  note frame = conjunct1[OF main]
  note protection = conjunct1[OF conjunct2[OF main]]
  have "rows (ws q)
       = map (\<lambda>(k, row). (k, row\<lparr>cellRefs := sortCellRefs exampleExternals (cellRefs row)\<rparr>))
           (rows exampleSheet)"
    by (subst frame) simp
  moreover have "cells (ws q) = cells exampleSheet"
    by (subst frame) simp
  moreover have "mergedCells (ws q) = mergedCells exampleSheet"
    by (subst frame) simp
  moreover have "getProp (sheetProtection (ws q)) ''sort'' = JBool False"
    by (subst protection[rule_format]) (simp add: exampleSheet_def getProp_def)
  moreover have "getProp (sheetProtection (ws q)) ''objects'' = JBool True"
    by (subst protection[rule_format]) (simp add: exampleSheet_def getProp_def)
  ultimately show ?thesis using d n q by simp
qed

text \<open>
  The claim as the specification states it has the rows, the order of each row's
  \<open>cellRefs\<close> and the options identical before and after. In the example worksheet the
  \<open>cellRefs\<close> of every row are reordered, the end row and both columns of \<open>autoFilter\<close> are
  filled in, and \<open>sheetProtection.sheet\<close> goes from \<open>null\<close> to \<open>true\<close>.
\<close>

theorem serialization_mutates_counterexample:
  "\<not> isl (sheetXML exampleExternals exampleSheet)
   \<and> map (cellRefs \<circ> snd) (rows exampleSheet)
       = [[''C5'', ''A5'', ''B5''], [''C6'', ''A6'', ''B6''], [''C7'', ''A7'', ''B7'']]
   \<and> map (cellRefs \<circ> snd) (rows (ws (projr (sheetXML exampleExternals exampleSheet))))
       = [[''A5'', ''B5'', ''C5''], [''A6'', ''B6'', ''C6''], [''A7'', ''B7'', ''C7'']]
   \<and> autoFilter exampleSheet
       = \<lparr>startRow = Some 5, endRow = None, startCol = None, endCol = None\<rparr>
   \<and> autoFilter (ws (projr (sheetXML exampleExternals exampleSheet)))
       = \<lparr>startRow = Some 5, endRow = Some 7, startCol = Some 1, endCol = Some 3\<rparr>
   \<and> getProp (sheetProtection exampleSheet) ''sheet'' = JNull
   \<and> getProp (sheetProtection (ws (projr (sheetXML exampleExternals exampleSheet)))) ''sheet''
       = JBool True"
  by code_simp

end
